theory Spec2Isabelle
  imports Complex_Main "HOL-Library.Stream" "HOL-Library.Word"
begin

section \<open>Core types (core/types.hpp, products/option.hpp, core/marketdata.hpp)\<close>

text \<open>
  The library computes on IEEE doubles.  Throughout this development a \<^verbatim>\<open>double\<close> is
  modelled by a \<^typ>\<open>real\<close>: rounding is outside the model, the control flow, the order of
  updates and every thrown exception are inside it.  Infinities and NaN are modelled where
  ordinary inputs reach them, in the averages of an Asian option and what consumes them
  (see the section on doubles that leave the finite range); elsewhere they are outside
  the model.
  A C++ exception is a value \<open>Inl e\<close> of a sum type.
\<close>

datatype OptionType = CALL | PUT

datatype OptionStyle = EUROPEAN | AMERICAN | BERMUDAN

datatype BarrierType = UP_AND_IN | UP_AND_OUT | DOWN_AND_IN | DOWN_AND_OUT

datatype AveragingType = ARITHMETIC | GEOMETRIC

datatype error = invalid_argument string | runtime_error string | undefined_behaviour string

text \<open>
  The class hierarchy below \<^verbatim>\<open>Option\<close> is a tag: the derived classes add fields and
  (some of them) override \<^verbatim>\<open>payoff\<close>.  A \<^verbatim>\<open>dynamic_cast\<close> is a test of the tag.
\<close>

datatype Product =
    Vanilla
  | Asian AveragingType nat
  | Digital real
  | AssetOrNothing
  | Barrier BarrierType real real

record Option_t =
  strike :: real
  expiry :: real
  otype :: OptionType
  style :: OptionStyle
  product :: Product

record MarketData =
  spot :: real
  rate :: real
  volatility :: real
  dividend :: real

text \<open>\<^verbatim>\<open>Option::Option\<close> with \<^verbatim>\<open>validate()\<close>: the base-class constructor.\<close>

definition Option_new :: "real \<Rightarrow> real \<Rightarrow> OptionType \<Rightarrow> OptionStyle \<Rightarrow> error + Option_t" where
  "Option_new k t ty st =
     (if k \<le> 0 then Inl (invalid_argument ''Strike price must be positive and finite'')
      else if t \<le> 0 then Inl (invalid_argument ''Expiry must be positive and finite'')
      else Inr \<lparr>strike = k, expiry = t, otype = ty, style = st, product = Vanilla\<rparr>)"

text \<open>\<^verbatim>\<open>MarketData::MarketData\<close> with \<^verbatim>\<open>validate()\<close>.\<close>

definition MarketData_new :: "real \<Rightarrow> real \<Rightarrow> real \<Rightarrow> real \<Rightarrow> error + MarketData" where
  "MarketData_new s r vol dv =
     (if s \<le> 0 then Inl (invalid_argument ''Spot price must be positive and finite'')
      else if vol \<le> 0 then Inl (invalid_argument ''Volatility must be positive and finite'')
      else Inr \<lparr>spot = s, rate = r, volatility = vol, dividend = dv\<rparr>)"

text \<open>
  The virtual \<^verbatim>\<open>payoff\<close>: \<^verbatim>\<open>Option::payoff\<close> is inherited by the vanilla and barrier
  classes, \<^verbatim>\<open>AsianOption::payoff\<close> repeats its formula on the average, the two digital
  classes override it.
\<close>

definition Option_payoff :: "Option_t \<Rightarrow> real \<Rightarrow> real" where
  "Option_payoff opt s =
     (if otype opt = CALL then max (s - strike opt) 0 else max (strike opt - s) 0)"

definition payoff :: "Option_t \<Rightarrow> real \<Rightarrow> real" where
  "payoff opt s =
     (case product opt of
        Digital payout \<Rightarrow>
          (if (if otype opt = CALL then s > strike opt else s < strike opt) then payout else 0)
      | AssetOrNothing \<Rightarrow>
          (if (if otype opt = CALL then s > strike opt else s < strike opt) then s else 0)
      | _ \<Rightarrow> Option_payoff opt s)"

section \<open>Binomial lattice (models/binomial_tree.cpp)\<close>

record TreeParams =
  u :: real
  d :: real
  p :: real
  dt :: real
  df :: real

text \<open>
  The CRR risk-neutral up-probability as the specification writes it:
  \<open>p = (exp((r-q)dt) - d)/(u - d)\<close> with \<open>dt = T/N\<close>, \<open>u = exp(\<sigma>\<surd>dt)\<close>, \<open>d = 1/u\<close>.
\<close>

definition crr_p :: "nat \<Rightarrow> MarketData \<Rightarrow> real \<Rightarrow> real" where
  "crr_p num_steps md T =
     (let dt' = T / real num_steps;
          u' = exp (volatility md * sqrt dt');
          d' = 1 / u';
          growth_factor = exp ((rate md - dividend md) * dt')
      in (growth_factor - d') / (u' - d'))"

definition calculate_parameters :: "nat \<Rightarrow> MarketData \<Rightarrow> real \<Rightarrow> error + TreeParams" where
  "calculate_parameters num_steps md T =
     (let dt' = T / real num_steps;
          sigma = volatility md;
          r = rate md;
          q = dividend md;
          u' = exp (sigma * sqrt dt');
          d' = 1 / u';
          df' = exp (- r * dt');
          growth_factor = exp ((r - q) * dt');
          p' = (growth_factor - d') / (u' - d')
      in if p' < 0 \<or> p' > 1 then Inl (runtime_error ''Invalid binomial tree parameters'')
         else Inr \<lparr>u = u', d = d', p = p', dt = dt', df = df'\<rparr>)"

text \<open>The terminal layer: node \<open>i\<close> has made \<open>num_steps - i\<close> up-moves and \<open>i\<close> down-moves.\<close>

definition terminal_spot :: "TreeParams \<Rightarrow> real \<Rightarrow> nat \<Rightarrow> nat \<Rightarrow> real" where
  "terminal_spot ps S num_steps i = S * u ps ^ (num_steps - i) * d ps ^ i"

definition terminal_values :: "TreeParams \<Rightarrow> Option_t \<Rightarrow> real \<Rightarrow> nat \<Rightarrow> real list" where
  "terminal_values ps opt S num_steps =
     map (\<lambda>i. payoff opt (terminal_spot ps S num_steps i)) [0..<Suc num_steps]"

text \<open>
  One pass of the inner loop \<^verbatim>\<open>for (i = 0; i <= step; ++i)\<close>, updating the vector in
  place; the outer loop runs \<open>step\<close> from \<open>num_steps - 1\<close> down to \<open>0\<close>.
\<close>

definition european_node :: "TreeParams \<Rightarrow> real list \<Rightarrow> nat \<Rightarrow> real list" where
  "european_node ps values i =
     values[i := df ps * (p ps * values ! i + (1 - p ps) * values ! (i + 1))]"

definition european_step :: "TreeParams \<Rightarrow> nat \<Rightarrow> real list \<Rightarrow> real list" where
  "european_step ps step values = fold (\<lambda>i vs. european_node ps vs i) [0..<Suc step] values"

definition price_european :: "nat \<Rightarrow> Option_t \<Rightarrow> MarketData \<Rightarrow> TreeParams \<Rightarrow> real" where
  "price_european num_steps opt md ps =
     (let values = terminal_values ps opt (spot md) num_steps;
          values' = fold (european_step ps) (rev [0..<num_steps]) values
      in values' ! 0)"

definition american_node :: "TreeParams \<Rightarrow> Option_t \<Rightarrow> real \<Rightarrow> nat \<Rightarrow> real list \<Rightarrow> nat \<Rightarrow> real list" where
  "american_node ps opt S step values i =
     (let S_node = S * u ps ^ (step - i) * d ps ^ i;
          continuation = df ps * (p ps * values ! i + (1 - p ps) * values ! (i + 1));
          exercise = payoff opt S_node
      in values[i := max continuation exercise])"

definition american_step :: "TreeParams \<Rightarrow> Option_t \<Rightarrow> real \<Rightarrow> nat \<Rightarrow> real list \<Rightarrow> real list" where
  "american_step ps opt S step values =
     fold (\<lambda>i vs. american_node ps opt S step vs i) [0..<Suc step] values"

definition price_american :: "nat \<Rightarrow> Option_t \<Rightarrow> MarketData \<Rightarrow> TreeParams \<Rightarrow> real" where
  "price_american num_steps opt md ps =
     (let values = terminal_values ps opt (spot md) num_steps;
          values' = fold (american_step ps opt (spot md)) (rev [0..<num_steps]) values
      in values' ! 0)"

definition BinomialTreeModel_price :: "nat \<Rightarrow> Option_t \<Rightarrow> MarketData \<Rightarrow> error + real" where
  "BinomialTreeModel_price num_steps opt md =
     (case calculate_parameters num_steps md (expiry opt) of
        Inl e \<Rightarrow> Inl e
      | Inr ps \<Rightarrow>
          Inr (if style opt = AMERICAN then price_american num_steps opt md ps
               else price_european num_steps opt md ps))"

text \<open>What the loop body of \<^verbatim>\<open>price_american\<close> stores at node \<open>i\<close>, from the two values it reads.\<close>

definition american_value :: "TreeParams \<Rightarrow> Option_t \<Rightarrow> real \<Rightarrow> nat \<Rightarrow> nat \<Rightarrow> real \<Rightarrow> real \<Rightarrow> real" where
  "american_value ps opt S step i up down =
     max (df ps * (p ps * up + (1 - p ps) * down)) (payoff opt (S * u ps ^ (step - i) * d ps ^ i))"

section \<open>Trinomial lattice (models/binomial_tree.cpp)\<close>

text \<open>
  \<^verbatim>\<open>size_t\<close> is a 64-bit word.  The terminal loop stores \<^verbatim>\<open>i - num_steps_\<close> in an
  \<^verbatim>\<open>int j\<close> (the low 32 bits, read as signed); the backward loop multiplies the unsigned
  difference \<^verbatim>\<open>(i - num_steps_)\<close> by \<^verbatim>\<open>dx\<close> directly.
\<close>

definition size_t_sub :: "nat \<Rightarrow> nat \<Rightarrow> 64 word" where
  "size_t_sub a b = word_of_nat a - word_of_nat b"

record TrinomialParams =
  dx :: real
  pu :: real
  pm :: real
  pd :: real
  tdf :: real

definition trinomial_parameters :: "nat \<Rightarrow> MarketData \<Rightarrow> real \<Rightarrow> TrinomialParams" where
  "trinomial_parameters num_steps md T =
     (let r = rate md;
          q = dividend md;
          sigma = volatility md;
          dt' = T / real num_steps;
          dx' = sigma * sqrt (3 * dt');
          nu = r - q - 0.5 * sigma * sigma
      in \<lparr>dx = dx',
          pu = 0.5 * ((sigma * sigma * dt' + nu * nu * dt' * dt') / (dx' * dx') + nu * dt' / dx'),
          pm = 1 - (sigma * sigma * dt' + nu * nu * dt' * dt') / (dx' * dx'),
          pd = 0.5 * ((sigma * sigma * dt' + nu * nu * dt' * dt') / (dx' * dx') - nu * dt' / dx'),
          tdf = exp (- r * dt')\<rparr>)"

definition trinomial_terminal :: "TrinomialParams \<Rightarrow> Option_t \<Rightarrow> real \<Rightarrow> nat \<Rightarrow> real list" where
  "trinomial_terminal tp opt S num_steps =
     map (\<lambda>i. let j = sint (ucast (size_t_sub i num_steps) :: 32 word);
                  S_T = S * exp (real_of_int j * dx tp)
              in payoff opt S_T)
         [0..<2 * num_steps + 1]"

definition trinomial_node ::
  "TrinomialParams \<Rightarrow> Option_t \<Rightarrow> real \<Rightarrow> nat \<Rightarrow> real list \<Rightarrow> nat \<Rightarrow> real list" where
  "trinomial_node tp opt S num_steps values i =
     (let S_node = S * exp (real (unat (size_t_sub i num_steps)) * dx tp);
          continuation = tdf tp * (pu tp * values ! (i + 1) + pm tp * values ! i
                                   + pd tp * values ! (i - 1))
      in if style opt = AMERICAN
         then values[i := max continuation (payoff opt S_node)]
         else values[i := continuation])"

definition trinomial_step ::
  "TrinomialParams \<Rightarrow> Option_t \<Rightarrow> real \<Rightarrow> nat \<Rightarrow> nat \<Rightarrow> real list \<Rightarrow> real list" where
  "trinomial_step tp opt S num_steps step values =
     fold (\<lambda>i vs. trinomial_node tp opt S num_steps vs i)
          [num_steps - step..<Suc (num_steps + step)] values"

definition TrinomialTreeModel_price :: "nat \<Rightarrow> Option_t \<Rightarrow> MarketData \<Rightarrow> real" where
  "TrinomialTreeModel_price num_steps opt md =
     (let tp = trinomial_parameters num_steps md (expiry opt);
          values = trinomial_terminal tp opt (spot md) num_steps;
          values' = fold (trinomial_step tp opt (spot md) num_steps) (rev [0..<num_steps]) values
      in values' ! num_steps)"

subsection \<open>The lattices the specification describes\<close>

text \<open>
  Backward induction as the specification words it, by recursion on the number \<open>k\<close> of
  steps that remain below a node: a terminal node is worth its payoff, an interior node
  the larger of the discounted expected value of its successors and the payoff at its own
  spot.  Binomial node \<open>(step, i)\<close> has spot \<open>S u\<^bsup>step-i\<^esup> d\<^bsup>i\<^esup>\<close> and successors \<open>(step+1, i)\<close> (up)
  and \<open>(step+1, i+1)\<close> (down); trinomial node \<open>j\<close> has spot \<open>S exp(j dx)\<close> and successors
  \<open>j+1\<close>, \<open>j\<close>, \<open>j-1\<close>.
\<close>

fun american_lattice :: "TreeParams \<Rightarrow> Option_t \<Rightarrow> real \<Rightarrow> nat \<Rightarrow> nat \<Rightarrow> nat \<Rightarrow> real" where
  "american_lattice ps opt S 0 step i = payoff opt (S * u ps ^ (step - i) * d ps ^ i)"
| "american_lattice ps opt S (Suc k) step i =
     max (df ps * (p ps * american_lattice ps opt S k (Suc step) i
                   + (1 - p ps) * american_lattice ps opt S k (Suc step) (Suc i)))
         (payoff opt (S * u ps ^ (step - i) * d ps ^ i))"

fun american_trinomial_lattice :: "TrinomialParams \<Rightarrow> Option_t \<Rightarrow> real \<Rightarrow> nat \<Rightarrow> int \<Rightarrow> real" where
  "american_trinomial_lattice tp opt S 0 j = payoff opt (S * exp (real_of_int j * dx tp))"
| "american_trinomial_lattice tp opt S (Suc k) j =
     max (tdf tp * (pu tp * american_trinomial_lattice tp opt S k (j + 1)
                    + pm tp * american_trinomial_lattice tp opt S k j
                    + pd tp * american_trinomial_lattice tp opt S k (j - 1)))
         (payoff opt (S * exp (real_of_int j * dx tp)))"

section \<open>Doubles that leave the finite range\<close>

text \<open>
  A double is a finite number, an infinity or NaN.  An exact result beyond the largest
  finite double becomes an infinity; infinities and NaN then propagate by the IEEE rules.
  Rounding of finite results, and with it underflow towards zero, is not modelled.
\<close>

datatype float_value = Finite real | PosInf | NegInf | NaN

definition DBL_MAX :: real where
  "DBL_MAX = (2 - 1 / 2 ^ 52) * 2 ^ 1023"

definition overflow :: "real \<Rightarrow> float_value" where
  "overflow x = (if x > DBL_MAX then PosInf else if x < - DBL_MAX then NegInf else Finite x)"

fun float_add :: "float_value \<Rightarrow> float_value \<Rightarrow> float_value" where
  "float_add (Finite a) (Finite b) = overflow (a + b)"
| "float_add NaN y = NaN"
| "float_add x NaN = NaN"
| "float_add PosInf NegInf = NaN"
| "float_add NegInf PosInf = NaN"
| "float_add PosInf y = PosInf"
| "float_add x PosInf = PosInf"
| "float_add NegInf y = NegInf"
| "float_add x NegInf = NegInf"

fun float_mult :: "float_value \<Rightarrow> float_value \<Rightarrow> float_value" where
  "float_mult (Finite a) (Finite b) = overflow (a * b)"
| "float_mult NaN y = NaN"
| "float_mult x NaN = NaN"
| "float_mult PosInf (Finite b) = (if b > 0 then PosInf else if b < 0 then NegInf else NaN)"
| "float_mult (Finite a) PosInf = (if a > 0 then PosInf else if a < 0 then NegInf else NaN)"
| "float_mult NegInf (Finite b) = (if b > 0 then NegInf else if b < 0 then PosInf else NaN)"
| "float_mult (Finite a) NegInf = (if a > 0 then NegInf else if a < 0 then PosInf else NaN)"
| "float_mult PosInf PosInf = PosInf"
| "float_mult PosInf NegInf = NegInf"
| "float_mult NegInf PosInf = NegInf"
| "float_mult NegInf NegInf = PosInf"

text \<open>
  Division by a count (a \<^verbatim>\<open>size_t\<close> converted to double): the quotient of a finite number
  by a positive count cannot overflow.
\<close>

fun float_div_count :: "float_value \<Rightarrow> nat \<Rightarrow> float_value" where
  "float_div_count (Finite a) n =
     (if n = 0 then (if a = 0 then NaN else if a > 0 then PosInf else NegInf)
      else Finite (a / real n))"
| "float_div_count PosInf n = PosInf"
| "float_div_count NegInf n = NegInf"
| "float_div_count NaN n = NaN"

text \<open>
  \<^verbatim>\<open>std::pow(x, 1.0 / n)\<close> for a count \<open>n \<ge> 1\<close>.  The exponent lies in \<open>(0, 1]\<close> and is an
  integer only for \<open>n = 1\<close>; a positive finite base has a root no larger than
  \<open>max x 1\<close>, which cannot overflow.
\<close>

fun float_root :: "float_value \<Rightarrow> nat \<Rightarrow> float_value" where
  "float_root (Finite x) n =
     (if x > 0 then Finite (x powr (1 / real n))
      else if x = 0 then Finite 0
      else if n = 1 then Finite x
      else NaN)"
| "float_root PosInf n = PosInf"
| "float_root NegInf n = (if n = 1 then NegInf else PosInf)"
| "float_root NaN n = NaN"

text \<open>The comparison \<^verbatim>\<open><=\<close> of two doubles: false whenever either is NaN.\<close>

fun float_le :: "float_value \<Rightarrow> float_value \<Rightarrow> bool" where
  "float_le (Finite a) (Finite b) = (a \<le> b)"
| "float_le NaN y = False"
| "float_le x NaN = False"
| "float_le NegInf y = True"
| "float_le x PosInf = True"
| "float_le PosInf y = False"
| "float_le x NegInf = False"

section \<open>Random stream (math/random.hpp)\<close>

text \<open>
  \<^verbatim>\<open>RandomGenerator\<close> wraps \<^verbatim>\<open>std::mt19937\<close> and \<^verbatim>\<open>std::normal_distribution\<close>, which are
  not code of this repository.  The state of a generator is the stream of standard
  normal draws it has still to return; what the standard library produces for a seed is a
  parameter \<open>gen\<close> of every function that constructs a generator.  The pricing engines
  call \<^verbatim>\<open>next_normal\<close> and \<^verbatim>\<open>correlated_normals\<close> only.
\<close>

type_synonym RandomGenerator = "real stream"

type_synonym seed_fn = "32 word \<Rightarrow> RandomGenerator"

definition next_normal :: "RandomGenerator \<Rightarrow> real \<times> RandomGenerator" where
  "next_normal g = (shd g, stl g)"

definition correlated_normals :: "real \<Rightarrow> RandomGenerator \<Rightarrow> (real \<times> real) \<times> RandomGenerator" where
  "correlated_normals correlation g =
     (let (z1, g1) = next_normal g;
          (z2, g2) = next_normal g1;
          w1 = z1;
          w2 = correlation * z1 + sqrt (1 - correlation * correlation) * z2
      in ((w1, w2), g2))"

section \<open>Plain Monte Carlo (models/monte_carlo.hpp, models/monte_carlo.cpp)\<close>

record MonteCarloConfig =
  num_paths :: nat
  num_timesteps :: nat
  seed :: "32 word"
  use_antithetic :: bool
  use_control_variate :: bool

text \<open>The engine: its configuration and the mutable generator \<^verbatim>\<open>rng_\<close>.\<close>

record MonteCarloModel =
  config :: MonteCarloConfig
  rng :: RandomGenerator

definition MonteCarloModel_new :: "seed_fn \<Rightarrow> MonteCarloConfig \<Rightarrow> MonteCarloModel" where
  "MonteCarloModel_new gen cfg = \<lparr>config = cfg, rng = gen (seed cfg)\<rparr>"

text \<open>The loop \<^verbatim>\<open>for (i = 1; i <= num_steps; ++i)\<close> of \<^verbatim>\<open>simulate_path\<close>: \<open>n\<close> steps remain.\<close>

fun path_steps :: "real \<Rightarrow> real \<Rightarrow> nat \<Rightarrow> real \<Rightarrow> RandomGenerator \<Rightarrow> real list \<times> RandomGenerator" where
  "path_steps drift diffusion 0 prev g = ([], g)"
| "path_steps drift diffusion (Suc n) prev g =
     (let (dW, g1) = next_normal g;
          s = prev * exp (drift + diffusion * dW);
          (rest, g2) = path_steps drift diffusion n s g1
      in (s # rest, g2))"

definition simulate_path ::
  "real \<Rightarrow> MarketData \<Rightarrow> real \<Rightarrow> nat \<Rightarrow> RandomGenerator \<Rightarrow> real list \<times> RandomGenerator" where
  "simulate_path S0 md T num_steps g =
     (let dt' = T / real num_steps;
          sigma = volatility md;
          r = rate md;
          q = dividend md;
          drift = (r - q - 0.5 * sigma * sigma) * dt';
          diffusion = sigma * sqrt dt';
          (rest, g') = path_steps drift diffusion num_steps S0 g
      in (S0 # rest, g'))"

text \<open>
  \<^verbatim>\<open>AsianOption::calculate_average\<close>.  The sum and the product are accumulated in the
  order of the observations, each in one double: once the running product (or sum) has
  passed the largest finite double it is infinite and stays so, whatever the later
  factors would bring the exact product to.
\<close>

definition calculate_average :: "AveragingType \<Rightarrow> real list \<Rightarrow> float_value" where
  "calculate_average avg_type observations =
     (if observations = [] then Finite 0
      else if avg_type = ARITHMETIC
      then float_div_count (fold (\<lambda>obs acc. float_add acc (Finite obs)) observations (Finite 0))
             (length observations)
      else float_root (fold (\<lambda>obs product. float_mult product (Finite obs)) observations (Finite 1))
             (length observations))"

text \<open>
  \<^verbatim>\<open>AsianOption::payoff\<close> on an average that may be infinite or NaN; \<^verbatim>\<open>std::max(a, b)\<close>
  is \<^verbatim>\<open>(a < b) ? b : a\<close>, so a NaN first argument is returned.
\<close>

definition payoff_of_average :: "Option_t \<Rightarrow> float_value \<Rightarrow> float_value" where
  "payoff_of_average opt average_price =
     (case average_price of
        Finite a \<Rightarrow> Finite (payoff opt a)
      | PosInf \<Rightarrow> (if otype opt = CALL then PosInf else Finite 0)
      | NegInf \<Rightarrow> (if otype opt = CALL then Finite 0 else PosInf)
      | NaN \<Rightarrow> NaN)"

text \<open>\<^verbatim>\<open>BarrierOption::is_knocked\<close> and \<^verbatim>\<open>is_knock_in\<close>.\<close>

definition is_knocked :: "BarrierType \<Rightarrow> real \<Rightarrow> real \<Rightarrow> bool" where
  "is_knocked bt barrier_level spot_price =
     (case bt of
        UP_AND_IN \<Rightarrow> spot_price \<ge> barrier_level
      | UP_AND_OUT \<Rightarrow> spot_price \<ge> barrier_level
      | DOWN_AND_IN \<Rightarrow> spot_price \<le> barrier_level
      | DOWN_AND_OUT \<Rightarrow> spot_price \<le> barrier_level)"

definition is_knock_in :: "BarrierType \<Rightarrow> bool" where
  "is_knock_in bt = (bt = UP_AND_IN \<or> bt = DOWN_AND_IN)"

text \<open>\<^verbatim>\<open>price_asian\<close>: \<open>n\<close> paths remain, \<open>acc\<close> is the running \<^verbatim>\<open>sum\<close>.\<close>

fun asian_loop ::
  "Option_t \<Rightarrow> AveragingType \<Rightarrow> nat \<Rightarrow> MarketData \<Rightarrow> nat \<Rightarrow> float_value \<Rightarrow> RandomGenerator
     \<Rightarrow> float_value \<times> RandomGenerator" where
  "asian_loop opt avg nobs md 0 acc g = (acc, g)"
| "asian_loop opt avg nobs md (Suc n) acc g =
     (let (path, g1) = simulate_path (spot md) md (expiry opt) nobs g;
          avg_price = calculate_average avg path;
          pay = payoff_of_average opt avg_price
      in asian_loop opt avg nobs md n (float_add acc pay) g1)"

definition price_asian ::
  "MonteCarloModel \<Rightarrow> Option_t \<Rightarrow> AveragingType \<Rightarrow> nat \<Rightarrow> MarketData
     \<Rightarrow> float_value \<times> MonteCarloModel" where
  "price_asian m opt avg nobs md =
     (let (acc, g) = asian_loop opt avg nobs md (num_paths (config m)) (Finite 0) (rng m);
          mean_payoff = float_div_count acc (num_paths (config m))
      in (float_mult (Finite (exp (- rate md * expiry opt))) mean_payoff, m\<lparr>rng := g\<rparr>))"

text \<open>\<^verbatim>\<open>price_barrier\<close>; the barrier walk stops at the first knocked observation.\<close>

fun barrier_loop ::
  "Option_t \<Rightarrow> BarrierType \<Rightarrow> real \<Rightarrow> real \<Rightarrow> MarketData \<Rightarrow> nat \<Rightarrow> nat \<Rightarrow> real \<Rightarrow> RandomGenerator
     \<Rightarrow> real \<times> RandomGenerator" where
  "barrier_loop opt bt level rebate md steps 0 acc g = (acc, g)"
| "barrier_loop opt bt level rebate md steps (Suc n) acc g =
     (let (path, g1) = simulate_path (spot md) md (expiry opt) steps g;
          barrier_hit = (\<exists>S \<in> set path. is_knocked bt level S);
          pay = (if is_knock_in bt
                 then (if barrier_hit then Option_payoff opt (last path) else rebate)
                 else (if barrier_hit then rebate else Option_payoff opt (last path)))
      in barrier_loop opt bt level rebate md steps n (acc + pay) g1)"

definition price_barrier ::
  "MonteCarloModel \<Rightarrow> Option_t \<Rightarrow> BarrierType \<Rightarrow> real \<Rightarrow> real \<Rightarrow> MarketData
     \<Rightarrow> real \<times> MonteCarloModel" where
  "price_barrier m opt bt level rebate md =
     (let (acc, g) = barrier_loop opt bt level rebate md (num_timesteps (config m))
                       (num_paths (config m)) 0 (rng m);
          mean_payoff = acc / real (num_paths (config m))
      in (exp (- rate md * expiry opt) * mean_payoff, m\<lparr>rng := g\<rparr>))"

text \<open>
  The vanilla loop of \<^verbatim>\<open>MonteCarloModel::price\<close>: \<open>n\<close> iterations remain; the state is
  \<open>(acc, acc_sq)\<close> (the source's \<^verbatim>\<open>sum\<close> and \<^verbatim>\<open>sum_sq\<close>) and the generator.  With \<^verbatim>\<open>use_antithetic\<close> the body adds the payoff of
  the path it has just simulated a second time and draws nothing more.
\<close>

fun vanilla_loop ::
  "Option_t \<Rightarrow> MarketData \<Rightarrow> MonteCarloConfig \<Rightarrow> nat \<Rightarrow> real \<times> real \<Rightarrow> RandomGenerator
     \<Rightarrow> (real \<times> real) \<times> RandomGenerator" where
  "vanilla_loop opt md cfg 0 acc g = (acc, g)"
| "vanilla_loop opt md cfg (Suc n) (acc, acc_sq) g =
     (let (path, g1) = simulate_path (spot md) md (expiry opt) (num_timesteps cfg) g;
          S_T = last path;
          pay = payoff opt S_T;
          acc1 = acc + pay;
          acc_sq1 = acc_sq + pay * pay;
          acc2 = (if use_antithetic cfg then acc1 + pay else acc1)
      in vanilla_loop opt md cfg n (acc2, acc_sq1) g1)"

definition MonteCarloModel_price ::
  "MonteCarloModel \<Rightarrow> Option_t \<Rightarrow> MarketData \<Rightarrow> (error + float_value) \<times> MonteCarloModel" where
  "MonteCarloModel_price m opt md =
     (if style opt \<noteq> EUROPEAN
      then (Inl (invalid_argument
             ''Basic Monte Carlo only supports European options. Use LSMC for American options.''), m)
      else case product opt of
        Asian avg nobs \<Rightarrow> (let (v, m') = price_asian m opt avg nobs md in (Inr v, m'))
      | Barrier bt level rebate \<Rightarrow>
          (let (v, m') = price_barrier m opt bt level rebate md in (Inr (Finite v), m'))
      | _ \<Rightarrow>
          (let cfg = config m;
               total_paths = (if use_antithetic cfg then num_paths cfg div 2 else num_paths cfg);
               ((acc, acc_sq), g) = vanilla_loop opt md cfg total_paths (0, 0) (rng m);
               actual_paths = (if use_antithetic cfg then real (num_paths cfg) else real total_paths);
               mean_payoff = acc / actual_paths
           in (Inr (Finite (exp (- rate md * expiry opt) * mean_payoff)), m\<lparr>rng := g\<rparr>)))"

section \<open>Heston engine (models/heston.hpp, models/heston.cpp)\<close>

record HestonParams =
  kappa :: real
  theta :: real
  sigma :: real
  rho :: real
  v0 :: real

text \<open>\<^verbatim>\<open>std::log\<close> on a complex number: the principal branch.\<close>

definition clog :: "complex \<Rightarrow> complex" where
  "clog z = Complex (ln (cmod z)) (Arg z)"

definition characteristic_function ::
  "HestonParams \<Rightarrow> complex \<Rightarrow> real \<Rightarrow> real \<Rightarrow> real \<Rightarrow> real \<Rightarrow> real \<Rightarrow> complex" where
  "characteristic_function hp w S v T r q =
     (let k = complex_of_real (kappa hp);
          th = complex_of_real (HestonParams.theta hp);
          sg = complex_of_real (sigma hp);
          rh = complex_of_real (HestonParams.rho hp);
          d' = csqrt ((rh * sg * w * \<i> - k) ^ 2 + sg * sg * (w * \<i> + w * w));
          g = (k - rh * sg * w * \<i> - d') / (k - rh * sg * w * \<i> + d');
          C = complex_of_real (r - q) * w * \<i> * complex_of_real T
              + (k * th) / (sg * sg)
                * ((k - rh * sg * w * \<i> - d') * complex_of_real T
                   - 2 * clog ((1 - g * exp (- d' * complex_of_real T)) / (1 - g)));
          D = (k - rh * sg * w * \<i> - d') / (sg * sg)
              * (1 - exp (- d' * complex_of_real T)) / (1 - g * exp (- d' * complex_of_real T))
      in exp (C + D * complex_of_real v + \<i> * w * complex_of_real (ln S)))"

definition heston_integrand ::
  "HestonParams \<Rightarrow> real \<Rightarrow> real \<Rightarrow> real \<Rightarrow> real \<Rightarrow> real \<Rightarrow> real \<Rightarrow> int \<Rightarrow> real" where
  "heston_integrand hp phi S K T r q j =
     (let w = (if j = 1 then complex_of_real phi - \<i> else complex_of_real phi);
          f = characteristic_function hp w S (v0 hp) T r q;
          integrand = exp (- \<i> * complex_of_real phi * complex_of_real (ln K)) * f
                      / (\<i> * complex_of_real phi)
      in Re integrand)"

definition integrate :: "HestonParams \<Rightarrow> real \<Rightarrow> real \<Rightarrow> real \<Rightarrow> real \<Rightarrow> real \<Rightarrow> int \<Rightarrow> real" where
  "integrate hp S K T r q j =
     (let n_points = (1000::nat);
          upper_limit = (100::real);
          step = upper_limit / real n_points
      in fold (\<lambda>i acc. acc + heston_integrand hp (real i * step) S K T r q j) [1..<n_points] 0
         * step)"

definition price_semi_analytical :: "HestonParams \<Rightarrow> Option_t \<Rightarrow> MarketData \<Rightarrow> real" where
  "price_semi_analytical hp opt md =
     (let S = spot md; K = strike opt; T = expiry opt; r = rate md; q = dividend md;
          P1 = 0.5 + integrate hp S K T r q 1 / pi;
          P2 = 0.5 + integrate hp S K T r q 2 / pi
      in if otype opt = CALL
         then S * exp (- q * T) * P1 - K * exp (- r * T) * P2
         else K * exp (- r * T) * (1 - P2) - S * exp (- q * T) * (1 - P1))"

definition HestonModel_price :: "HestonParams \<Rightarrow> Option_t \<Rightarrow> MarketData \<Rightarrow> error + real" where
  "HestonModel_price hp opt md =
     (if style opt \<noteq> EUROPEAN
      then Inl (invalid_argument ''Heston model currently only supports European options'')
      else Inr (price_semi_analytical hp opt md))"

text \<open>
  The loop of \<^verbatim>\<open>HestonModel::simulate_path\<close>: \<open>n\<close> steps remain, \<open>S_last\<close> and \<open>v_last\<close>
  are \<^verbatim>\<open>S_path[i - 1]\<close> and \<^verbatim>\<open>v_path[i - 1]\<close>.
\<close>

fun heston_steps ::
  "HestonParams \<Rightarrow> real \<Rightarrow> real \<Rightarrow> real \<Rightarrow> nat \<Rightarrow> real \<Rightarrow> real \<Rightarrow> RandomGenerator
     \<Rightarrow> (real list \<times> real list) \<times> RandomGenerator" where
  "heston_steps hp r q dt' 0 S_last v_last g = (([], []), g)"
| "heston_steps hp r q dt' (Suc n) S_last v_last g =
     (let ((Z1, Z2), g1) = correlated_normals (HestonParams.rho hp) g;
          v_prev = max v_last 0;
          dv = kappa hp * (HestonParams.theta hp - v_prev) * dt'
               + sigma hp * sqrt (v_prev * dt') * Z2;
          v_new = v_prev + dv;
          dS = (r - q) * S_last * dt' + S_last * sqrt (v_prev * dt') * Z1;
          S_new = S_last + dS;
          ((Ss, vs), g2) = heston_steps hp r q dt' n S_new v_new g1
      in ((S_new # Ss, v_new # vs), g2))"

definition HestonModel_simulate_path ::
  "HestonParams \<Rightarrow> real \<Rightarrow> real \<Rightarrow> MarketData \<Rightarrow> real \<Rightarrow> nat \<Rightarrow> RandomGenerator
     \<Rightarrow> (real list \<times> real list) \<times> RandomGenerator" where
  "HestonModel_simulate_path hp S0 v_init md T num_steps g =
     (let dt' = T / real num_steps;
          r = rate md;
          q = dividend md;
          ((Ss, vs), g') = heston_steps hp r q dt' num_steps S0 v_init g
      in ((S0 # Ss, v_init # vs), g'))"

fun heston_mc_loop ::
  "HestonParams \<Rightarrow> Option_t \<Rightarrow> MarketData \<Rightarrow> nat \<Rightarrow> nat \<Rightarrow> real \<Rightarrow> RandomGenerator
     \<Rightarrow> real \<times> RandomGenerator" where
  "heston_mc_loop hp opt md steps 0 acc g = (acc, g)"
| "heston_mc_loop hp opt md steps (Suc n) acc g =
     (let ((S_path, v_path), g1) =
            HestonModel_simulate_path hp (spot md) (v0 hp) md (expiry opt) steps g;
          pay = payoff opt (last S_path)
      in heston_mc_loop hp opt md steps n (acc + pay) g1)"

text \<open>
  \<^verbatim>\<open>price_monte_carlo\<close> declares its generator locally, \<^verbatim>\<open>math::RandomGenerator rng(12345)\<close>;
  the engine holds no generator and no seed.
\<close>

definition price_monte_carlo ::
  "seed_fn \<Rightarrow> HestonParams \<Rightarrow> Option_t \<Rightarrow> MarketData \<Rightarrow> nat \<Rightarrow> nat \<Rightarrow> real" where
  "price_monte_carlo gen hp opt md n_paths n_steps =
     (let g = gen 12345;
          (acc, g') = heston_mc_loop hp opt md n_steps n_paths 0 g;
          mean_payoff = acc / real n_paths
      in exp (- rate md * expiry opt) * mean_payoff)"

section \<open>Linear algebra (math/matrix.hpp, math/matrix.cpp)\<close>

record Matrix =
  rows :: nat
  cols :: nat
  data :: "real list"

definition Matrix_new :: "nat \<Rightarrow> nat \<Rightarrow> Matrix" where
  "Matrix_new r c = \<lparr>rows = r, cols = c, data = replicate (r * c) 0\<rparr>"

text \<open>\<^verbatim>\<open>Matrix::operator()\<close>, read and write, on the row-major vector.\<close>

definition elem :: "Matrix \<Rightarrow> nat \<Rightarrow> nat \<Rightarrow> real" where
  "elem A i j = data A ! (i * cols A + j)"

definition set_elem :: "Matrix \<Rightarrow> nat \<Rightarrow> nat \<Rightarrow> real \<Rightarrow> Matrix" where
  "set_elem A i j v = A\<lparr>data := (data A)[i * cols A + j := v]\<rparr>"

definition find_pivot :: "Matrix \<Rightarrow> nat \<Rightarrow> nat \<Rightarrow> nat" where
  "find_pivot A i n =
     fst (fold (\<lambda>k (max_row, max_val).
                  if \<bar>elem A k i\<bar> > max_val then (k, \<bar>elem A k i\<bar>) else (max_row, max_val))
               [i + 1..<n] (i, \<bar>elem A i i\<bar>))"

definition swap_rows :: "Matrix \<times> real list \<Rightarrow> nat \<Rightarrow> nat \<Rightarrow> nat \<Rightarrow> Matrix \<times> real list" where
  "swap_rows Ab i max_row n =
     (case Ab of (A, b) \<Rightarrow>
        if max_row \<noteq> i
        then (fold (\<lambda>k M. set_elem (set_elem M i k (elem M max_row k)) max_row k (elem M i k)) [i..<n] A,
              b[i := b ! max_row, max_row := b ! i])
        else (A, b))"

definition eliminate_column :: "Matrix \<times> real list \<Rightarrow> nat \<Rightarrow> nat \<Rightarrow> Matrix \<times> real list" where
  "eliminate_column Ab i n =
     fold (\<lambda>k (A, b).
             let factor = elem A k i / elem A i i
             in (fold (\<lambda>j M. set_elem M k j (elem M k j - factor * elem M i j)) [i..<n] A,
                 b[k := b ! k - factor * b ! i]))
          [i + 1..<n] Ab"

fun gauss_eliminate :: "nat \<Rightarrow> nat list \<Rightarrow> Matrix \<times> real list \<Rightarrow> error + Matrix \<times> real list" where
  "gauss_eliminate n [] Ab = Inr Ab"
| "gauss_eliminate n (i # is) Ab =
     (let Ab1 = swap_rows Ab i (find_pivot (fst Ab) i n) n
      in if \<bar>elem (fst Ab1) i i\<bar> < 1 / 10 ^ 10
         then Inl (runtime_error ''Matrix is singular or nearly singular'')
         else gauss_eliminate n is (eliminate_column Ab1 i n))"

definition back_substitute :: "nat \<Rightarrow> Matrix \<Rightarrow> real list \<Rightarrow> real list" where
  "back_substitute n A b =
     fold (\<lambda>i x. let acc = fold (\<lambda>j a. a + elem A i j * x ! j) [i + 1..<n] 0
                  in x[i := (b ! i - acc) / elem A i i])
          (rev [0..<n]) (replicate n 0)"

definition solve_linear_system :: "Matrix \<Rightarrow> real list \<Rightarrow> error + real list" where
  "solve_linear_system A b =
     (let n = rows A
      in if cols A \<noteq> n \<or> length b \<noteq> n
         then Inl (invalid_argument ''Matrix must be square and match vector size'')
         else case gauss_eliminate n [0..<n] (A, b) of
                Inl e \<Rightarrow> Inl e
              | Inr (A', b') \<Rightarrow> Inr (back_substitute n A' b'))"

section \<open>Longstaff-Schwartz Monte Carlo (models/lsmc.hpp, models/lsmc.cpp)\<close>

text \<open>
  \<^verbatim>\<open>LSMCModel::Config\<close>; \<^verbatim>\<open>polynomial_degree\<close> is an \<^verbatim>\<open>int\<close>: a 32-bit word read as signed.
  The field names of \<^verbatim>\<open>MonteCarloConfig\<close> are reused, so they are written with the
  record's name from here on.
\<close>

record LSMC_Config =
  num_paths :: nat
  num_timesteps :: nat
  seed :: "32 word"
  use_antithetic :: bool
  polynomial_degree :: "32 word"

record LSMCModel =
  config :: LSMC_Config
  rng :: RandomGenerator

definition LSMCModel_new :: "seed_fn \<Rightarrow> LSMC_Config \<Rightarrow> LSMCModel" where
  "LSMCModel_new gen cfg = \<lparr>LSMCModel.config = cfg, LSMCModel.rng = gen (LSMC_Config.seed cfg)\<rparr>"

text \<open>
  \<^verbatim>\<open>generate_paths\<close>.  The matrix starts zero-filled; the loop over \<open>i < actual_paths\<close>
  fills row \<open>i\<close> by the recursion of \<^verbatim>\<open>simulate_path\<close> (the source repeats that loop body
  here) and, with \<^verbatim>\<open>use_antithetic\<close>, copies the row it has just filled into row
  \<open>i + actual_paths\<close>.
\<close>

fun generate_paths_loop ::
  "LSMC_Config \<Rightarrow> real \<Rightarrow> real \<Rightarrow> real \<Rightarrow> nat \<Rightarrow> nat list \<Rightarrow> real list list \<Rightarrow> RandomGenerator
     \<Rightarrow> real list list \<times> RandomGenerator" where
  "generate_paths_loop cfg S0 drift diffusion actual_paths [] paths g = (paths, g)"
| "generate_paths_loop cfg S0 drift diffusion actual_paths (i # is) paths g =
     (let (rest, g1) = path_steps drift diffusion (LSMC_Config.num_timesteps cfg) S0 g;
          paths1 = paths[i := S0 # rest];
          paths2 = (if LSMC_Config.use_antithetic cfg \<and> i + actual_paths < LSMC_Config.num_paths cfg
                    then paths1[i + actual_paths := S0 # map (\<lambda>j. paths1 ! i ! j)
                                                     [1..<Suc (LSMC_Config.num_timesteps cfg)]]
                    else paths1)
      in generate_paths_loop cfg S0 drift diffusion actual_paths is paths2 g1)"

definition generate_paths ::
  "LSMC_Config \<Rightarrow> real \<Rightarrow> MarketData \<Rightarrow> real \<Rightarrow> RandomGenerator
     \<Rightarrow> real list list \<times> RandomGenerator" where
  "generate_paths cfg S0 md T g =
     (let paths = replicate (LSMC_Config.num_paths cfg)
                    (replicate (LSMC_Config.num_timesteps cfg + 1) 0);
          dt' = T / real (LSMC_Config.num_timesteps cfg);
          sg = volatility md;
          r = rate md;
          q = dividend md;
          drift = (r - q - 0.5 * sg * sg) * dt';
          diffusion = sg * sqrt dt';
          actual_paths = (if LSMC_Config.use_antithetic cfg then LSMC_Config.num_paths cfg div 2
                          else LSMC_Config.num_paths cfg)
      in generate_paths_loop cfg S0 drift diffusion actual_paths [0..<actual_paths] paths g)"

text \<open>\<^verbatim>\<open>basis_functions\<close> for a degree that is not negative: weighted Laguerre polynomials.\<close>

definition basis_functions :: "real \<Rightarrow> nat \<Rightarrow> real list" where
  "basis_functions x degree =
     (let b = replicate (degree + 1) 0;
          b0 = b[0 := exp (- x / 2)];
          b1 = (if degree \<ge> 1 then b0[1 := exp (- x / 2) * (1 - x)] else b0);
          b2 = (if degree \<ge> 2 then b1[2 := exp (- x / 2) * (1 - 2 * x + x * x / 2)] else b1);
          b3 = (if degree \<ge> 3
                then b2[3 := exp (- x / 2) * (1 - 3 * x + 1.5 * x * x - x * x * x / 6)] else b2)
      in fold (\<lambda>i bs. bs[i := ((2 * real i - 1 - x) * bs ! (i - 1) - (real i - 1) * bs ! (i - 2))
                              / real i])
              [4..<Suc degree] b3)"

text \<open>
  \<^verbatim>\<open>regression\<close>: the normal equations \<open>A\<^sup>T A \<beta> = A\<^sup>T y\<close>.  A negative degree makes
  \<^verbatim>\<open>basis_functions\<close> write past the end of its vector; the model reports that.
\<close>

definition regression :: "real list \<Rightarrow> real list \<Rightarrow> int \<Rightarrow> error + real list" where
  "regression x y degree =
     (if length x \<noteq> length y \<or> x = [] then Inl (invalid_argument ''Invalid regression input'')
      else if degree < 0 then Inl (undefined_behaviour ''basis_functions: basis[0] out of range'')
      else
        let n = length x;
            m = nat degree + 1;
            A = fold (\<lambda>i M. fold (\<lambda>j M'. set_elem M' i j (basis_functions (x ! i) (nat degree) ! j))
                                  [0..<m] M)
                     [0..<n] (Matrix_new n m);
            ATA = fold (\<lambda>i M. fold (\<lambda>j M'. set_elem M' i j
                                        (fold (\<lambda>k acc. acc + elem A k i * elem A k j) [0..<n] 0))
                                    [0..<m] M)
                       [0..<m] (Matrix_new m m);
            ATy = map (\<lambda>i. fold (\<lambda>k acc. acc + elem A k i * y ! k) [0..<n] 0) [0..<m]
        in solve_linear_system ATA ATy)"

text \<open>
  \<^verbatim>\<open>evaluate_polynomial\<close>; the coefficient vector comes from \<^verbatim>\<open>regression\<close> and has
  \<open>degree + 1 \<ge> 1\<close> entries.
\<close>

definition evaluate_polynomial :: "real list \<Rightarrow> real \<Rightarrow> real" where
  "evaluate_polynomial coeffs x =
     (let basis = basis_functions x (length coeffs - 1)
      in fold (\<lambda>i result. result + coeffs ! i * basis ! i) [0..<length coeffs] 0)"

text \<open>
  The threshold \<^verbatim>\<open>static_cast<size_t>(config_.polynomial_degree + 1)\<close>: the sum in
  \<^verbatim>\<open>int\<close>, sign-extended to 64 bits and read as unsigned.
\<close>

definition regression_threshold :: "LSMC_Config \<Rightarrow> nat" where
  "regression_threshold cfg = unat (signed (polynomial_degree cfg + 1) :: 64 word)"

text \<open>The first positive cash flow of a path strictly after \<open>t\<close>, discounted back to \<open>t\<close>.\<close>

definition future_cash_flow :: "LSMC_Config \<Rightarrow> real \<Rightarrow> real \<Rightarrow> nat \<Rightarrow> real list \<Rightarrow> real" where
  "future_cash_flow cfg r dt' t row =
     (case find (\<lambda>j. row ! j > 0) [t + 1..<Suc (LSMC_Config.num_timesteps cfg)] of
        None \<Rightarrow> 0
      | Some j \<Rightarrow> row ! j * exp (- r * dt' * real (j - t)))"

definition itm_indices :: "LSMC_Config \<Rightarrow> Option_t \<Rightarrow> real list list \<Rightarrow> nat \<Rightarrow> nat list" where
  "itm_indices cfg opt paths t =
     filter (\<lambda>i. payoff opt (paths ! i ! t) > 0) [0..<LSMC_Config.num_paths cfg]"

text \<open>Recording an exercise at \<open>t\<close> on path \<open>i\<close>: the cash flow at \<open>t\<close>, zeros after it.\<close>

definition exercise_now :: "LSMC_Config \<Rightarrow> nat \<Rightarrow> nat \<Rightarrow> real \<Rightarrow> real list list \<Rightarrow> real list list" where
  "exercise_now cfg t i exercise_value cash_flows =
     cash_flows[i := fold (\<lambda>j row. row[j := 0]) [t + 1..<Suc (LSMC_Config.num_timesteps cfg)]
                          ((cash_flows ! i)[t := exercise_value])]"

text \<open>One round of the backward loop, at time index \<open>t\<close>.\<close>

definition lsmc_step ::
  "LSMC_Config \<Rightarrow> Option_t \<Rightarrow> real \<Rightarrow> real \<Rightarrow> real list list \<Rightarrow> nat \<Rightarrow> real list list
     \<Rightarrow> error + real list list" where
  "lsmc_step cfg opt r dt' paths t cash_flows =
     (let itm = itm_indices cfg opt paths t;
          x_itm = map (\<lambda>i. paths ! i ! t) itm;
          y_itm = map (\<lambda>i. future_cash_flow cfg r dt' t (cash_flows ! i)) itm
      in if length x_itm \<ge> regression_threshold cfg
         then (case regression x_itm y_itm (sint (polynomial_degree cfg)) of
                 Inl e \<Rightarrow> Inl e
               | Inr coeffs \<Rightarrow>
                   Inr (fold (\<lambda>i cf.
                                let continuation_value = evaluate_polynomial coeffs (paths ! i ! t);
                                    exercise_value = payoff opt (paths ! i ! t)
                                in if exercise_value > continuation_value
                                   then exercise_now cfg t i exercise_value cf
                                   else cf)
                             itm cash_flows))
         else Inr cash_flows)"

text \<open>The backward loop \<^verbatim>\<open>for (int t = num_timesteps - 1; t >= 1; --t)\<close>.\<close>

fun lsmc_backward ::
  "LSMC_Config \<Rightarrow> Option_t \<Rightarrow> real \<Rightarrow> real \<Rightarrow> real list list \<Rightarrow> nat list \<Rightarrow> real list list
     \<Rightarrow> error + real list list" where
  "lsmc_backward cfg opt r dt' paths [] cash_flows = Inr cash_flows"
| "lsmc_backward cfg opt r dt' paths (t # ts) cash_flows =
     (case lsmc_step cfg opt r dt' paths t cash_flows of
        Inl e \<Rightarrow> Inl e
      | Inr cash_flows' \<Rightarrow> lsmc_backward cfg opt r dt' paths ts cash_flows')"

definition discounted_cash_flow :: "LSMC_Config \<Rightarrow> real \<Rightarrow> real \<Rightarrow> real list \<Rightarrow> real" where
  "discounted_cash_flow cfg r dt' row =
     (case find (\<lambda>t. row ! t > 0) [0..<Suc (LSMC_Config.num_timesteps cfg)] of
        None \<Rightarrow> 0
      | Some t \<Rightarrow> row ! t * exp (- r * dt' * real t))"

definition LSMCModel_price ::
  "LSMCModel \<Rightarrow> Option_t \<Rightarrow> MarketData \<Rightarrow> (error + real) \<times> LSMCModel" where
  "LSMCModel_price m opt md =
     (if style opt \<noteq> AMERICAN
      then (Inl (invalid_argument ''LSMC is designed for American options''), m)
      else
        let cfg = LSMCModel.config m;
            S0 = spot md;
            T = expiry opt;
            r = rate md;
            dt' = T / real (LSMC_Config.num_timesteps cfg);
            (paths, g) = generate_paths cfg S0 md T (LSMCModel.rng m);
            steps = LSMC_Config.num_timesteps cfg;
            cash_flows = map (\<lambda>i. (replicate (steps + 1) 0)[steps := payoff opt (paths ! i ! steps)])
                           [0..<LSMC_Config.num_paths cfg]
        in case lsmc_backward cfg opt r dt' paths (rev [1..<steps]) cash_flows of
             Inl e \<Rightarrow> (Inl e, m\<lparr>LSMCModel.rng := g\<rparr>)
           | Inr cash_flows' \<Rightarrow>
               (Inr (fold (\<lambda>i acc. acc + discounted_cash_flow cfg r dt' (cash_flows' ! i))
                          [0..<LSMC_Config.num_paths cfg] 0
                     / real (LSMC_Config.num_paths cfg)),
                m\<lparr>LSMCModel.rng := g\<rparr>))"

section \<open>Numerical Greeks (core/greeks.hpp, models/pricing_model.hpp)\<close>

record Greeks =
  delta :: real
  gamma :: real
  vega :: real
  theta :: real
  rho :: real

text \<open>
  \<^verbatim>\<open>PricingModel::numerical_greeks\<close>.  The virtual \<^verbatim>\<open>price\<close> of the engine is the
  parameter \<open>price\<close>; it takes and returns the engine \<open>m\<close>, since an engine may hold a
  \<^verbatim>\<open>mutable\<close> generator.  The constructors of the bumped \<^verbatim>\<open>MarketData\<close> and of the
  \<^verbatim>\<open>Option\<close> used for theta validate their arguments and may throw.
\<close>

definition numerical_greeks ::
  "('m \<Rightarrow> Option_t \<Rightarrow> MarketData \<Rightarrow> (error + real) \<times> 'm) \<Rightarrow> 'm \<Rightarrow> Option_t \<Rightarrow> MarketData
     \<Rightarrow> real \<Rightarrow> real \<Rightarrow> real \<Rightarrow> real \<Rightarrow> (error + Greeks) \<times> 'm" where
  "numerical_greeks price m opt md spot_bump vol_bump rate_bump time_bump =
     (case price m opt md of (Inl e, m1) \<Rightarrow> (Inl e, m1) | (Inr base_price, m1) \<Rightarrow>
     (case MarketData_new (spot md * (1 + spot_bump)) (rate md) (volatility md) (dividend md) of
        Inl e \<Rightarrow> (Inl e, m1) | Inr spot_up \<Rightarrow>
     (case MarketData_new (spot md * (1 - spot_bump)) (rate md) (volatility md) (dividend md) of
        Inl e \<Rightarrow> (Inl e, m1) | Inr spot_down \<Rightarrow>
     (case price m1 opt spot_up of (Inl e, m2) \<Rightarrow> (Inl e, m2) | (Inr price_up, m2) \<Rightarrow>
     (case price m2 opt spot_down of (Inl e, m3) \<Rightarrow> (Inl e, m3) | (Inr price_down, m3) \<Rightarrow>
     (case MarketData_new (spot md) (rate md) (volatility md + vol_bump) (dividend md) of
        Inl e \<Rightarrow> (Inl e, m3) | Inr vol_up \<Rightarrow>
     (case price m3 opt vol_up of (Inl e, m4) \<Rightarrow> (Inl e, m4) | (Inr vega_price, m4) \<Rightarrow>
     (case Option_new (strike opt) (expiry opt - time_bump) (otype opt) (style opt) of
        Inl e \<Rightarrow> (Inl e, m4) | Inr theta_option \<Rightarrow>
     (case price m4 theta_option md of (Inl e, m5) \<Rightarrow> (Inl e, m5) | (Inr theta_price, m5) \<Rightarrow>
     (case MarketData_new (spot md) (rate md + rate_bump) (volatility md) (dividend md) of
        Inl e \<Rightarrow> (Inl e, m5) | Inr rate_up \<Rightarrow>
     (case price m5 opt rate_up of (Inl e, m6) \<Rightarrow> (Inl e, m6) | (Inr rho_price, m6) \<Rightarrow>
        (Inr \<lparr>delta = (price_up - price_down) / (2 * spot md * spot_bump),
              gamma = (price_up - 2 * base_price + price_down) / (spot md * spot_bump) ^ 2,
              vega = (vega_price - base_price) / vol_bump,
              theta = (theta_price - base_price) / time_bump,
              rho = (rho_price - base_price) / rate_bump\<rparr>, m6))))))))))))"

text \<open>The call every engine makes, with the default bumps of the declaration.\<close>

definition default_greeks ::
  "('m \<Rightarrow> Option_t \<Rightarrow> MarketData \<Rightarrow> (error + real) \<times> 'm) \<Rightarrow> 'm \<Rightarrow> Option_t \<Rightarrow> MarketData
     \<Rightarrow> (error + Greeks) \<times> 'm" where
  "default_greeks price m opt md = numerical_greeks price m opt md 0.01 0.001 0.0001 (1 / 365)"

section \<open>Default configurations and sample inputs\<close>

text \<open>The default constructors of the three configuration structs.\<close>

definition MonteCarloConfig_default :: MonteCarloConfig where
  "MonteCarloConfig_default =
     \<lparr>MonteCarloConfig.num_paths = 100000, MonteCarloConfig.num_timesteps = 100,
      MonteCarloConfig.seed = 12345, MonteCarloConfig.use_antithetic = True,
      use_control_variate = False\<rparr>"

definition LSMC_Config_default :: LSMC_Config where
  "LSMC_Config_default =
     \<lparr>num_paths = 50000, num_timesteps = 50, seed = 12345, use_antithetic = True,
      polynomial_degree = 3\<rparr>"

definition HestonParams_default :: HestonParams where
  "HestonParams_default =
     \<lparr>kappa = 2, HestonParams.theta = 0.04, sigma = 0.3, HestonParams.rho = - 0.7, v0 = 0.04\<rparr>"

text \<open>Contracts and market snapshots used to exercise the theorems below.\<close>

definition md_steep :: MarketData where
  "md_steep = \<lparr>spot = 100, rate = 2, volatility = 1, dividend = 0\<rparr>"

definition md_flat :: MarketData where
  "md_flat = \<lparr>spot = 100, rate = 0, volatility = 1, dividend = 0\<rparr>"

definition european_call :: Option_t where
  "european_call = \<lparr>strike = 100, expiry = 1, otype = CALL, style = EUROPEAN, product = Vanilla\<rparr>"

definition american_put :: Option_t where
  "american_put = \<lparr>strike = 100, expiry = 1, otype = PUT, style = AMERICAN, product = Vanilla\<rparr>"

text \<open>A generator whose every draw is 0, and one that depends on the seed.\<close>

definition zero_gen :: seed_fn where
  "zero_gen s = sconst 0"

definition seed_gen :: seed_fn where
  "seed_gen s = (if s = 12345 then sconst 0 else sconst 1)"

text \<open>A two-path antithetic run of one time step.\<close>

definition antithetic_pair_config :: MonteCarloConfig where
  "antithetic_pair_config =
     \<lparr>MonteCarloConfig.num_paths = 2, MonteCarloConfig.num_timesteps = 1,
      MonteCarloConfig.seed = 12345, MonteCarloConfig.use_antithetic = True,
      use_control_variate = False\<rparr>"

text \<open>
  A two-step trinomial tree with \<open>dx = 1\<close>: zero rate, unit volatility and a dividend
  yield that cancels the drift of the logarithm, eight months to expiry.
\<close>

definition md_drift_free :: MarketData where
  "md_drift_free = \<lparr>spot = 100, rate = 0, volatility = 1, dividend = - (1 / 2)\<rparr>"

definition short_american_put :: Option_t where
  "short_american_put =
     \<lparr>strike = 100, expiry = 2 / 3, otype = PUT, style = AMERICAN, product = Vanilla\<rparr>"

definition unit_trinomial :: TrinomialParams where
  "unit_trinomial = \<lparr>dx = 1, pu = 1 / 6, pm = 2 / 3, pd = 1 / 6, tdf = 1\<rparr>"

text \<open>The continuation value of that tree one step before expiry, one node below the centre.\<close>

definition lower_continuation :: real where
  "lower_continuation = 2 / 3 * (100 - 100 * exp (- 1)) + 1 / 6 * (100 - 100 * exp (- 2))"


text \<open>
  The increments of the Heston discretisation as the specification writes them:
  \<open>dv = \<kappa>(\<theta> - v\<^sup>+)dt + \<sigma>\<surd>(v\<^sup>+ dt) Z2\<close>, \<open>dS = (r - q) S dt + S \<surd>(v\<^sup>+ dt) Z1\<close> and
  \<open>Z2 = \<rho> Z1 + \<surd>(1 - \<rho>\<^sup>2) Z2'\<close>.
\<close>

definition variance_increment :: "HestonParams \<Rightarrow> real \<Rightarrow> real \<Rightarrow> real \<Rightarrow> real" where
  "variance_increment hp v_plus dt' Z2 =
     kappa hp * (HestonParams.theta hp - v_plus) * dt' + sigma hp * sqrt (v_plus * dt') * Z2"

definition asset_increment :: "real \<Rightarrow> real \<Rightarrow> real \<Rightarrow> real \<Rightarrow> real \<Rightarrow> real \<Rightarrow> real" where
  "asset_increment r q S v_plus dt' Z1 = (r - q) * S * dt' + S * sqrt (v_plus * dt') * Z1"

definition correlated_shock :: "real \<Rightarrow> real \<Rightarrow> real \<Rightarrow> real" where
  "correlated_shock correlation z1 z2 = correlation * z1 + sqrt (1 - correlation\<^sup>2) * z2"

text \<open>A small LSMC run: two paths, two steps, cubic regression; one path is in the money at \<open>t = 1\<close>.\<close>

definition lsmc_small :: LSMC_Config where
  "lsmc_small =
     \<lparr>num_paths = 2, num_timesteps = 2, seed = 12345, use_antithetic = False,
      polynomial_degree = 3\<rparr>"

definition paths_small :: "real list list" where
  "paths_small = [[100, 90, 80], [100, 110, 120]]"

definition cash_flows_small :: "real list list" where
  "cash_flows_small = [[0, 0, 20], [0, 0, 0]]"

text \<open>
  A stateless engine that values a contract at its payoff at the current spot, a digital
  call and a market in which it is in the money.
\<close>

definition intrinsic_price :: "unit \<Rightarrow> Option_t \<Rightarrow> MarketData \<Rightarrow> (error + real) \<times> unit" where
  "intrinsic_price m opt md = (Inr (payoff opt (spot md)), m)"

definition digital_call :: Option_t where
  "digital_call = \<lparr>strike = 100, expiry = 1, otype = CALL, style = EUROPEAN, product = Digital 10\<rparr>"

definition md_itm :: MarketData where
  "md_itm = \<lparr>spot = 120, rate = 0, volatility = 1, dividend = 0\<rparr>"

text \<open>
  The number of values a pricing run draws from its generator, read off the iteration counts of
  \<^verbatim>\<open>MonteCarloModel::price\<close>, \<^verbatim>\<open>price_asian\<close>, \<^verbatim>\<open>price_barrier\<close> and
  \<^verbatim>\<open>LSMCModel::generate_paths\<close>: one draw per step of every simulated path, and no draw
  when the style is refused.
\<close>

definition mc_draws :: "MonteCarloConfig \<Rightarrow> Option_t \<Rightarrow> nat" where
  "mc_draws cfg opt =
     (if style opt \<noteq> EUROPEAN then 0
      else case product opt of
        Asian avg nobs \<Rightarrow> MonteCarloConfig.num_paths cfg * nobs
      | Barrier bt level rebate \<Rightarrow>
          MonteCarloConfig.num_paths cfg * MonteCarloConfig.num_timesteps cfg
      | _ \<Rightarrow>
          (if MonteCarloConfig.use_antithetic cfg then MonteCarloConfig.num_paths cfg div 2
           else MonteCarloConfig.num_paths cfg) * MonteCarloConfig.num_timesteps cfg)"

definition lsmc_draws :: "LSMC_Config \<Rightarrow> Option_t \<Rightarrow> nat" where
  "lsmc_draws cfg opt =
     (if style opt \<noteq> AMERICAN then 0
      else (if LSMC_Config.use_antithetic cfg then LSMC_Config.num_paths cfg div 2
            else LSMC_Config.num_paths cfg) * LSMC_Config.num_timesteps cfg)"

text \<open>
  Two generators that agree on their first four values for the seed 12345 and differ
  from the fifth on.
\<close>

definition short_gen :: seed_fn where
  "short_gen s = (if s = 12345 then 1 ## 0 ## 0 ## 0 ## sconst 0 else sconst 0)"

definition long_gen :: seed_fn where
  "long_gen s = 1 ## 0 ## 0 ## 0 ## sconst 1"

text \<open>The draws of a two-step Heston path: a first shock of 10, then zeros.\<close>

definition heston_shocks :: RandomGenerator where
  "heston_shocks = 10 ## sconst 0"

section \<open>Arithmetic facts\<close>

lemma ratio_above_one:
  fixes x :: real
  assumes "1 < x"
  shows "1 < (x * x - 1 / x) / (x - 1 / x)"
proof -
  have inv: "1 / x < 1" using assms by simp
  have den: "0 < x - 1 / x" using assms inv by linarith
  have "x < x * x" using assms by simp
  then have "x - 1 / x < x * x - 1 / x" by simp
  then show ?thesis using den by (simp add: less_divide_eq)
qed

lemma ratio_in_unit:
  fixes x :: real
  assumes "1 < x"
  shows "0 \<le> (1 - 1 / x) / (x - 1 / x) \<and> (1 - 1 / x) / (x - 1 / x) \<le> 1"
proof -
  have inv: "1 / x < 1" using assms by simp
  have den: "0 < x - 1 / x" using assms inv by linarith
  have num: "0 \<le> 1 - 1 / x" using inv by simp
  have le: "1 - 1 / x \<le> x - 1 / x" using assms by simp
  have "0 \<le> (1 - 1 / x) / (x - 1 / x)" using den num by (intro divide_nonneg_pos)
  moreover have "(1 - 1 / x) / (x - 1 / x) \<le> 1" using den le by (subst divide_le_eq_1_pos) auto
  ultimately show ?thesis by blast
qed

lemma crr_p_steep: "crr_p 1 md_steep 1 > 1"
proof -
  have "exp (2::real) = exp 1 * exp 1" by (simp add: exp_add [symmetric])
  then show ?thesis
    using ratio_above_one [of "exp 1"] by (simp add: crr_p_def md_steep_def Let_def)
qed

lemma crr_p_flat: "0 \<le> crr_p 1 md_flat 1 \<and> crr_p 1 md_flat 1 \<le> 1"
  using ratio_in_unit [of "exp 1"] by (simp add: crr_p_def md_flat_def Let_def)

section \<open>The lattice parameter check\<close>

text \<open>
  Claim C3.  With at least one step, the binomial engine fails with the runtime error
  "Invalid binomial tree parameters" exactly when the CRR up-probability
  \<open>p = (exp((r-q)dt) - d)/(u - d)\<close> is below 0 or above 1; otherwise the parameters are
  returned with that very \<open>p\<close> (it is not clamped) and the price is produced.
\<close>

theorem calculate_parameters_fails_iff:
  assumes "0 < num_steps"
  shows "(crr_p num_steps md (expiry opt) < 0 \<or> crr_p num_steps md (expiry opt) > 1 \<longrightarrow>
            calculate_parameters num_steps md (expiry opt)
              = Inl (runtime_error ''Invalid binomial tree parameters'')
          \<and> BinomialTreeModel_price num_steps opt md
              = Inl (runtime_error ''Invalid binomial tree parameters''))
       \<and> (0 \<le> crr_p num_steps md (expiry opt) \<and> crr_p num_steps md (expiry opt) \<le> 1 \<longrightarrow>
            (\<exists>ps. calculate_parameters num_steps md (expiry opt) = Inr ps
                  \<and> p ps = crr_p num_steps md (expiry opt))
          \<and> (\<exists>v. BinomialTreeModel_price num_steps opt md = Inr v))"
  by (auto simp: calculate_parameters_def crr_p_def BinomialTreeModel_price_def Let_def)

theorem calculate_parameters_fails_iff_witness:
  "(0::nat) < 1
   \<and> crr_p 1 md_steep (expiry european_call) > 1
   \<and> BinomialTreeModel_price 1 european_call md_steep
       = Inl (runtime_error ''Invalid binomial tree parameters'')
   \<and> 0 \<le> crr_p 1 md_flat (expiry european_call) \<and> crr_p 1 md_flat (expiry european_call) \<le> 1
   \<and> (\<exists>v. BinomialTreeModel_price 1 european_call md_flat = Inr v)"
proof -
  have e: "expiry european_call = 1" by (simp add: european_call_def)
  have s: "crr_p 1 md_steep (expiry european_call) > 1" using crr_p_steep e by simp
  have f: "0 \<le> crr_p 1 md_flat (expiry european_call) \<and> crr_p 1 md_flat (expiry european_call) \<le> 1"
    using crr_p_flat e by simp
  show ?thesis
    using s f calculate_parameters_fails_iff [of 1 md_steep european_call]
      calculate_parameters_fails_iff [of 1 md_flat european_call]
    by simp
qed

section \<open>Unsupported option styles\<close>

text \<open>
  Claim C4.  An engine given a style it does not implement fails at once with
  \<^verbatim>\<open>std::invalid_argument\<close> and leaves the engine, its generator included, as it was:
  plain Monte Carlo for every style but European, LSMC for every style but American, the
  Heston engine's \<^verbatim>\<open>price\<close> for every style but European.
\<close>

theorem unsupported_style_fails:
  "(style opt \<noteq> EUROPEAN \<longrightarrow>
      MonteCarloModel_price m opt md
        = (Inl (invalid_argument
             ''Basic Monte Carlo only supports European options. Use LSMC for American options.''), m))
   \<and> (style opt \<noteq> AMERICAN \<longrightarrow>
      LSMCModel_price l opt md = (Inl (invalid_argument ''LSMC is designed for American options''), l))
   \<and> (style opt \<noteq> EUROPEAN \<longrightarrow>
      HestonModel_price hp opt md
        = Inl (invalid_argument ''Heston model currently only supports European options''))"
  by (simp add: MonteCarloModel_price_def LSMCModel_price_def HestonModel_price_def)

theorem unsupported_style_fails_witness:
  "style american_put \<noteq> EUROPEAN
   \<and> MonteCarloModel_price (MonteCarloModel_new zero_gen MonteCarloConfig_default) american_put md_flat
       = (Inl (invalid_argument
            ''Basic Monte Carlo only supports European options. Use LSMC for American options.''),
          MonteCarloModel_new zero_gen MonteCarloConfig_default)
   \<and> style european_call \<noteq> AMERICAN
   \<and> LSMCModel_price (LSMCModel_new zero_gen LSMC_Config_default) european_call md_flat
       = (Inl (invalid_argument ''LSMC is designed for American options''),
          LSMCModel_new zero_gen LSMC_Config_default)
   \<and> HestonModel_price HestonParams_default american_put md_flat
       = Inl (invalid_argument ''Heston model currently only supports European options'')"
proof -
  have a: "style american_put \<noteq> EUROPEAN" by (simp add: american_put_def)
  have b: "style european_call \<noteq> AMERICAN" by (simp add: european_call_def)
  show ?thesis
    using a b
      unsupported_style_fails [of american_put
        "MonteCarloModel_new zero_gen MonteCarloConfig_default" md_flat
        "LSMCModel_new zero_gen LSMC_Config_default" HestonParams_default]
      unsupported_style_fails [of european_call
        "MonteCarloModel_new zero_gen MonteCarloConfig_default" md_flat
        "LSMCModel_new zero_gen LSMC_Config_default" HestonParams_default]
    by simp
qed

section \<open>The seed of the Heston simulation\<close>

text \<open>
  Claim C9.  \<^verbatim>\<open>HestonModel::price_monte_carlo\<close> builds its generator from the literal
  seed 12345 at every call.  Its value is a function of the parameters, the contract, the
  market data, the two counts and the draws that seed 12345 yields: the engine carries no
  generator from call to call, and whatever the standard library would produce for any
  other seed does not enter the price.
\<close>

theorem heston_mc_seed_fixed:
  "gen1 12345 = gen2 12345 \<Longrightarrow>
     price_monte_carlo gen1 hp opt md n_paths n_steps
       = price_monte_carlo gen2 hp opt md n_paths n_steps"
  by (simp add: price_monte_carlo_def)

theorem heston_mc_seed_fixed_witness:
  "zero_gen 12345 = seed_gen 12345 \<and> zero_gen 7 \<noteq> seed_gen 7
   \<and> price_monte_carlo zero_gen HestonParams_default european_call md_flat 2 1
       = price_monte_carlo seed_gen HestonParams_default european_call md_flat 2 1"
proof -
  have a: "zero_gen 12345 = seed_gen 12345" by (simp add: zero_gen_def seed_gen_def)
  have "shd (zero_gen 7) \<noteq> shd (seed_gen 7)" by (simp add: zero_gen_def seed_gen_def)
  then have b: "zero_gen 7 \<noteq> seed_gen 7" by auto
  show ?thesis
    using a b
      heston_mc_seed_fixed [of zero_gen seed_gen HestonParams_default european_call md_flat 2 1]
    by simp
qed

section \<open>Antithetic variates in the plain Monte Carlo engine\<close>

lemma simulate_one_step:
  "simulate_path S0 md T (Suc 0) g
     = ([S0, S0 * exp ((rate md - dividend md - 0.5 * volatility md * volatility md) * T
                       + volatility md * sqrt T * shd g)], stl g)"
  by (simp add: simulate_path_def next_normal_def Let_def)

text \<open>
  Claim C2, at a run of two antithetic paths and one step.  The engine simulates one path
  from one draw, adds the payoff of that path to the sum twice and divides by two: no
  second path is generated, no shock is negated, and the generator has advanced by the one
  draw only.
\<close>

theorem antithetic_adds_same_payoff_twice:
  "MonteCarloModel_price \<lparr>MonteCarloModel.config = antithetic_pair_config, MonteCarloModel.rng = g\<rparr>
       european_call md_flat
     = (Inr (Finite ((payoff european_call (100 * exp (shd g - 1 / 2))
                      + payoff european_call (100 * exp (shd g - 1 / 2))) / 2)),
        \<lparr>MonteCarloModel.config = antithetic_pair_config, MonteCarloModel.rng = stl g\<rparr>)"
proof -
  have one: "(2::nat) div 2 = Suc 0" by simp
  show ?thesis
    unfolding MonteCarloModel_price_def
    by (simp add: antithetic_pair_config_def european_call_def md_flat_def one simulate_one_step Let_def)
qed

section \<open>Reproducibility of the simulated prices\<close>

text \<open>
  Each loop of the two engines leaves the generator advanced by one draw per simulated
  step, and what it computes depends on the generator through the values drawn only.
\<close>

lemma stake_split:
  assumes "stake (m + n) g1 = stake (m + n) g2"
  shows "stake m g1 = stake m g2" and "stake n (sdrop m g1) = stake n (sdrop m g2)"
proof -
  have "stake m g1 @ stake n (sdrop m g1) = stake m g2 @ stake n (sdrop m g2)"
    using assms by (simp only: stake_add)
  then show "stake m g1 = stake m g2" and "stake n (sdrop m g1) = stake n (sdrop m g2)"
    by (simp_all del: stake_add)
qed

lemma path_steps_rng: "snd (path_steps dr di n prev g) = sdrop n g"
  by (induction n arbitrary: prev g) (simp_all add: next_normal_def Let_def case_prod_beta)

lemma path_steps_prefix:
  "stake n g1 = stake n g2 \<Longrightarrow>
     fst (path_steps dr di n prev g1) = fst (path_steps dr di n prev g2)"
proof (induction n arbitrary: prev g1 g2)
  case 0
  show ?case by simp
next
  case (Suc n)
  have h: "shd g1 = shd g2" and t: "stake n (stl g1) = stake n (stl g2)"
    using Suc.prems by simp_all
  have u: "\<And>g. fst (path_steps dr di (Suc n) prev g)
             = prev * exp (dr + di * shd g)
               # fst (path_steps dr di n (prev * exp (dr + di * shd g)) (stl g))"
    by (simp add: next_normal_def Let_def case_prod_beta)
  show ?case
    unfolding u h using Suc.IH [OF t, of "prev * exp (dr + di * shd g2)"] by simp
qed

lemma simulate_path_rng: "snd (simulate_path S0 md T n g) = sdrop n g"
  by (simp add: simulate_path_def Let_def case_prod_beta path_steps_rng)

lemma simulate_path_prefix:
  "stake n g1 = stake n g2 \<Longrightarrow>
     fst (simulate_path S0 md T n g1) = fst (simulate_path S0 md T n g2)"
proof -
  assume "stake n g1 = stake n g2"
  then have "\<And>dr di. fst (path_steps dr di n S0 g1) = fst (path_steps dr di n S0 g2)"
    by (rule path_steps_prefix)
  then show ?thesis by (simp add: simulate_path_def Let_def case_prod_beta)
qed

lemma vanilla_loop_rng:
  "snd (vanilla_loop opt md cfg n acc g) = sdrop (n * MonteCarloConfig.num_timesteps cfg) g"
proof (induction n arbitrary: acc g)
  case 0
  show ?case by simp
next
  case (Suc n)
  obtain a b where acc: "acc = (a, b)" by (cases acc)
  show ?case
    by (simp add: acc Let_def case_prod_beta Suc.IH simulate_path_rng sdrop_add add.commute)
qed

lemma vanilla_loop_prefix:
  "stake (n * MonteCarloConfig.num_timesteps cfg) g1
     = stake (n * MonteCarloConfig.num_timesteps cfg) g2 \<Longrightarrow>
   fst (vanilla_loop opt md cfg n acc g1) = fst (vanilla_loop opt md cfg n acc g2)"
proof (induction n arbitrary: acc g1 g2)
  case 0
  show ?case by simp
next
  case (Suc n)
  let ?k = "MonteCarloConfig.num_timesteps cfg"
  obtain a b where acc: "acc = (a, b)" by (cases acc)
  have "stake (?k + n * ?k) g1 = stake (?k + n * ?k) g2" using Suc.prems by simp
  then have h: "stake ?k g1 = stake ?k g2"
    and t: "stake (n * ?k) (sdrop ?k g1) = stake (n * ?k) (sdrop ?k g2)"
    by (rule stake_split)+
  have p: "fst (simulate_path (spot md) md (expiry opt) ?k g1)
             = fst (simulate_path (spot md) md (expiry opt) ?k g2)"
    using h by (rule simulate_path_prefix)
  have u: "\<And>g. fst (vanilla_loop opt md cfg (Suc n) acc g)
             = fst (vanilla_loop opt md cfg n
                 (let pay = payoff opt (last (fst (simulate_path (spot md) md (expiry opt) ?k g)))
                  in (if MonteCarloConfig.use_antithetic cfg then a + pay + pay else a + pay,
                      b + pay * pay))
                 (sdrop ?k g))"
    by (simp add: acc Let_def case_prod_beta simulate_path_rng)
  show ?case unfolding u p by (rule Suc.IH [OF t])
qed

lemma asian_loop_rng: "snd (asian_loop opt avg nobs md n acc g) = sdrop (n * nobs) g"
  by (induction n arbitrary: acc g)
    (simp_all add: Let_def case_prod_beta simulate_path_rng sdrop_add add.commute)

lemma asian_loop_prefix:
  "stake (n * nobs) g1 = stake (n * nobs) g2 \<Longrightarrow>
   fst (asian_loop opt avg nobs md n acc g1) = fst (asian_loop opt avg nobs md n acc g2)"
proof (induction n arbitrary: acc g1 g2)
  case 0
  show ?case by simp
next
  case (Suc n)
  have "stake (nobs + n * nobs) g1 = stake (nobs + n * nobs) g2" using Suc.prems by simp
  then have h: "stake nobs g1 = stake nobs g2"
    and t: "stake (n * nobs) (sdrop nobs g1) = stake (n * nobs) (sdrop nobs g2)"
    by (rule stake_split)+
  have p: "fst (simulate_path (spot md) md (expiry opt) nobs g1)
             = fst (simulate_path (spot md) md (expiry opt) nobs g2)"
    using h by (rule simulate_path_prefix)
  have u: "\<And>g. fst (asian_loop opt avg nobs md (Suc n) acc g)
             = fst (asian_loop opt avg nobs md n
                 (float_add acc (payoff_of_average opt (calculate_average avg
                    (fst (simulate_path (spot md) md (expiry opt) nobs g)))))
                 (sdrop nobs g))"
    by (simp add: Let_def case_prod_beta simulate_path_rng)
  show ?case unfolding u p by (rule Suc.IH [OF t])
qed

lemma barrier_loop_rng:
  "snd (barrier_loop opt bt level rebate md steps n acc g) = sdrop (n * steps) g"
  by (induction n arbitrary: acc g)
    (simp_all add: Let_def case_prod_beta simulate_path_rng sdrop_add add.commute)

lemma barrier_loop_prefix:
  "stake (n * steps) g1 = stake (n * steps) g2 \<Longrightarrow>
   fst (barrier_loop opt bt level rebate md steps n acc g1)
     = fst (barrier_loop opt bt level rebate md steps n acc g2)"
proof (induction n arbitrary: acc g1 g2)
  case 0
  show ?case by simp
next
  case (Suc n)
  have "stake (steps + n * steps) g1 = stake (steps + n * steps) g2" using Suc.prems by simp
  then have h: "stake steps g1 = stake steps g2"
    and t: "stake (n * steps) (sdrop steps g1) = stake (n * steps) (sdrop steps g2)"
    by (rule stake_split)+
  have p: "fst (simulate_path (spot md) md (expiry opt) steps g1)
             = fst (simulate_path (spot md) md (expiry opt) steps g2)"
    using h by (rule simulate_path_prefix)
  define step where "step = (\<lambda>path.
      acc + (if is_knock_in bt
             then (if (\<exists>S \<in> set path. is_knocked bt level S)
                   then Option_payoff opt (last path) else rebate)
             else (if (\<exists>S \<in> set path. is_knocked bt level S)
                   then rebate else Option_payoff opt (last path))))"
  have u: "\<And>g. fst (barrier_loop opt bt level rebate md steps (Suc n) acc g)
             = fst (barrier_loop opt bt level rebate md steps n
                 (step (fst (simulate_path (spot md) md (expiry opt) steps g))) (sdrop steps g))"
    by (simp add: step_def Let_def case_prod_beta simulate_path_rng)
  show ?case unfolding u p by (rule Suc.IH [OF t])
qed

lemma generate_paths_loop_rng:
  "snd (generate_paths_loop cfg S0 dr di k is paths g)
     = sdrop (length is * LSMC_Config.num_timesteps cfg) g"
  by (induction "is" arbitrary: paths g)
    (simp_all add: Let_def case_prod_beta path_steps_rng sdrop_add add.commute)

lemma generate_paths_loop_prefix:
  "stake (length is * LSMC_Config.num_timesteps cfg) g1
     = stake (length is * LSMC_Config.num_timesteps cfg) g2 \<Longrightarrow>
   fst (generate_paths_loop cfg S0 dr di k is paths g1)
     = fst (generate_paths_loop cfg S0 dr di k is paths g2)"
proof (induction "is" arbitrary: paths g1 g2)
  case Nil
  show ?case by simp
next
  case (Cons i "is")
  let ?k = "LSMC_Config.num_timesteps cfg"
  have "stake (?k + length is * ?k) g1 = stake (?k + length is * ?k) g2" using Cons.prems by simp
  then have h: "stake ?k g1 = stake ?k g2"
    and t: "stake (length is * ?k) (sdrop ?k g1) = stake (length is * ?k) (sdrop ?k g2)"
    by (rule stake_split)+
  have p: "fst (path_steps dr di ?k S0 g1) = fst (path_steps dr di ?k S0 g2)"
    using h by (rule path_steps_prefix)
  define fill where "fill = (\<lambda>rest.
      let paths1 = paths[i := S0 # rest]
      in if LSMC_Config.use_antithetic cfg \<and> i + k < LSMC_Config.num_paths cfg
         then paths1[i + k := S0 # map (\<lambda>j. paths1 ! i ! j) [1..<Suc ?k]]
         else paths1)"
  have u: "\<And>g. fst (generate_paths_loop cfg S0 dr di k (i # is) paths g)
             = fst (generate_paths_loop cfg S0 dr di k is (fill (fst (path_steps dr di ?k S0 g)))
                      (sdrop ?k g))"
    by (simp add: fill_def Let_def case_prod_beta path_steps_rng del: upt_Suc)
  show ?case unfolding u p by (rule Cons.IH [OF t])
qed

lemma vanilla_loop_cong:
  "MonteCarloConfig.num_timesteps c1 = MonteCarloConfig.num_timesteps c2 \<Longrightarrow>
   MonteCarloConfig.use_antithetic c1 = MonteCarloConfig.use_antithetic c2 \<Longrightarrow>
   vanilla_loop opt md c1 n acc g = vanilla_loop opt md c2 n acc g"
proof (induction n arbitrary: acc g)
  case 0
  show ?case by simp
next
  case (Suc n)
  obtain a b where acc: "acc = (a, b)" by (cases acc)
  show ?case using Suc by (simp add: acc Let_def split: prod.splits)
qed

lemma mc_price_config:
  assumes "MonteCarloConfig.num_paths c1 = MonteCarloConfig.num_paths c2"
    and "MonteCarloConfig.num_timesteps c1 = MonteCarloConfig.num_timesteps c2"
    and "MonteCarloConfig.use_antithetic c1 = MonteCarloConfig.use_antithetic c2"
  shows "fst (MonteCarloModel_price \<lparr>MonteCarloModel.config = c1, MonteCarloModel.rng = g\<rparr> opt md)
           = fst (MonteCarloModel_price \<lparr>MonteCarloModel.config = c2, MonteCarloModel.rng = g\<rparr> opt md)"
    and "mc_draws c1 opt = mc_draws c2 opt"
proof -
  have v: "\<And>n acc g. vanilla_loop opt md c1 n acc g = vanilla_loop opt md c2 n acc g"
    using assms(2,3) by (rule vanilla_loop_cong)
  show "fst (MonteCarloModel_price \<lparr>MonteCarloModel.config = c1, MonteCarloModel.rng = g\<rparr> opt md)
           = fst (MonteCarloModel_price \<lparr>MonteCarloModel.config = c2, MonteCarloModel.rng = g\<rparr> opt md)"
    using assms
    by (simp add: MonteCarloModel_price_def price_asian_def price_barrier_def v Let_def
        split: Product.splits prod.splits)
  show "mc_draws c1 opt = mc_draws c2 opt"
    using assms by (simp add: mc_draws_def split: Product.splits)
qed

lemma mc_price_rng:
  "MonteCarloModel.rng (snd (MonteCarloModel_price
       \<lparr>MonteCarloModel.config = cfg, MonteCarloModel.rng = g\<rparr> opt md))
     = sdrop (mc_draws cfg opt) g"
  by (cases "product opt")
    (simp_all add: MonteCarloModel_price_def mc_draws_def price_asian_def price_barrier_def
      Let_def case_prod_beta vanilla_loop_rng asian_loop_rng barrier_loop_rng)

lemma mc_price_prefix:
  assumes "stake (mc_draws cfg opt) g1 = stake (mc_draws cfg opt) g2"
  shows "fst (MonteCarloModel_price \<lparr>MonteCarloModel.config = cfg, MonteCarloModel.rng = g1\<rparr> opt md)
           = fst (MonteCarloModel_price \<lparr>MonteCarloModel.config = cfg, MonteCarloModel.rng = g2\<rparr> opt md)"
proof (cases "style opt = EUROPEAN")
  case False
  then show ?thesis by (simp add: MonteCarloModel_price_def)
next
  case True
  let ?n = "if MonteCarloConfig.use_antithetic cfg then MonteCarloConfig.num_paths cfg div 2
            else MonteCarloConfig.num_paths cfg"
  show ?thesis
  proof (cases "product opt")
    case (Asian avg nobs)
    have "fst (asian_loop opt avg nobs md (MonteCarloConfig.num_paths cfg) (Finite 0) g1)
            = fst (asian_loop opt avg nobs md (MonteCarloConfig.num_paths cfg) (Finite 0) g2)"
      using assms True Asian by (intro asian_loop_prefix) (simp add: mc_draws_def)
    then show ?thesis
      using True Asian
      by (simp add: MonteCarloModel_price_def price_asian_def Let_def case_prod_beta)
  next
    case (Barrier bt level rebate)
    have "fst (barrier_loop opt bt level rebate md (MonteCarloConfig.num_timesteps cfg)
                 (MonteCarloConfig.num_paths cfg) 0 g1)
            = fst (barrier_loop opt bt level rebate md (MonteCarloConfig.num_timesteps cfg)
                 (MonteCarloConfig.num_paths cfg) 0 g2)"
      using assms True Barrier by (intro barrier_loop_prefix) (simp add: mc_draws_def)
    then show ?thesis
      using True Barrier
      by (simp add: MonteCarloModel_price_def price_barrier_def Let_def case_prod_beta)
  next
    case Vanilla
    have "fst (vanilla_loop opt md cfg ?n (0, 0) g1) = fst (vanilla_loop opt md cfg ?n (0, 0) g2)"
      using assms True Vanilla by (intro vanilla_loop_prefix) (simp add: mc_draws_def)
    then show ?thesis
      using True Vanilla by (simp add: MonteCarloModel_price_def Let_def case_prod_beta)
  next
    case (Digital payout)
    have "fst (vanilla_loop opt md cfg ?n (0, 0) g1) = fst (vanilla_loop opt md cfg ?n (0, 0) g2)"
      using assms True Digital by (intro vanilla_loop_prefix) (simp add: mc_draws_def)
    then show ?thesis
      using True Digital by (simp add: MonteCarloModel_price_def Let_def case_prod_beta)
  next
    case AssetOrNothing
    have "fst (vanilla_loop opt md cfg ?n (0, 0) g1) = fst (vanilla_loop opt md cfg ?n (0, 0) g2)"
      using assms True AssetOrNothing by (intro vanilla_loop_prefix) (simp add: mc_draws_def)
    then show ?thesis
      using True AssetOrNothing by (simp add: MonteCarloModel_price_def Let_def case_prod_beta)
  qed
qed

lemma lsmc_price_rng:
  "LSMCModel.rng (snd (LSMCModel_price \<lparr>LSMCModel.config = cfg, LSMCModel.rng = g\<rparr> opt md))
     = sdrop (lsmc_draws cfg opt) g"
  by (simp add: LSMCModel_price_def lsmc_draws_def generate_paths_def Let_def case_prod_beta
      generate_paths_loop_rng split: sum.splits)

lemma lsmc_price_prefix:
  assumes "stake (lsmc_draws cfg opt) g1 = stake (lsmc_draws cfg opt) g2"
  shows "fst (LSMCModel_price \<lparr>LSMCModel.config = cfg, LSMCModel.rng = g1\<rparr> opt md)
           = fst (LSMCModel_price \<lparr>LSMCModel.config = cfg, LSMCModel.rng = g2\<rparr> opt md)"
proof (cases "style opt = AMERICAN")
  case False
  then show ?thesis by (simp add: LSMCModel_price_def)
next
  case True
  have eq: "fst (generate_paths cfg (spot md) md (expiry opt) g1)
          = fst (generate_paths cfg (spot md) md (expiry opt) g2)"
    unfolding generate_paths_def Let_def
    using assms True by (intro generate_paths_loop_prefix) (simp add: lsmc_draws_def)
  define value_of where "value_of = (\<lambda>paths.
      let steps = LSMC_Config.num_timesteps cfg;
          dt' = expiry opt / real steps;
          cash_flows = map (\<lambda>i. (replicate (steps + 1) 0)[steps := payoff opt (paths ! i ! steps)])
                         [0..<LSMC_Config.num_paths cfg]
      in case lsmc_backward cfg opt (rate md) dt' paths (rev [1..<steps]) cash_flows of
           Inl e \<Rightarrow> Inl e
         | Inr cash_flows' \<Rightarrow>
             Inr (fold (\<lambda>i acc. acc + discounted_cash_flow cfg (rate md) dt' (cash_flows' ! i))
                       [0..<LSMC_Config.num_paths cfg] 0
                  / real (LSMC_Config.num_paths cfg)))"
  have u: "\<And>g. fst (LSMCModel_price \<lparr>LSMCModel.config = cfg, LSMCModel.rng = g\<rparr> opt md)
             = value_of (fst (generate_paths cfg (spot md) md (expiry opt) g))"
    using True
    by (simp add: value_of_def LSMCModel_price_def Let_def case_prod_beta split: sum.splits)
  show ?thesis unfolding u eq by (rule refl)
qed

text \<open>The price does depend on what is drawn: a first draw of 0 and a first draw of 1 differ.\<close>

lemma price_depends_on_first_draw:
  "fst (MonteCarloModel_price (MonteCarloModel_new zero_gen antithetic_pair_config)
          european_call md_flat)
     \<noteq> fst (MonteCarloModel_price (MonteCarloModel_new long_gen antithetic_pair_config)
             european_call md_flat)"
proof -
  have one: "(2::nat) div 2 = Suc 0" by simp
  show ?thesis
    unfolding MonteCarloModel_price_def MonteCarloModel_new_def
    by (simp add: antithetic_pair_config_def european_call_def md_flat_def one simulate_one_step
        zero_gen_def long_gen_def payoff_def Option_payoff_def Let_def)
qed

text \<open>
  Claim C8.  The generator \<^verbatim>\<open>std::mt19937\<close> with \<^verbatim>\<open>std::normal_distribution\<close> is a
  parameter: a function from the seed to the sequence of values \<^verbatim>\<open>normal()\<close> returns.
  A freshly constructed plain Monte Carlo engine draws exactly \<open>mc_draws\<close> values of the
  sequence of its seed, a freshly constructed LSMC engine exactly \<open>lsmc_draws\<close>, and
  each leaves its generator advanced by that many draws.  The result of a run is
  determined by the contract, the market data, the seed, the path count, the step count,
  the antithetic flag (for LSMC also the polynomial degree) and the values drawn: two
  runs that agree on these return the same result, whatever else differs in their
  configurations and whatever their generators would yield later.  In particular two
  runs with one generator, the same seed and the same configuration return the same
  price.
\<close>

theorem same_outputs_same_price:
  assumes "MonteCarloConfig.seed c1 = MonteCarloConfig.seed c2"
    and "MonteCarloConfig.num_paths c1 = MonteCarloConfig.num_paths c2"
    and "MonteCarloConfig.num_timesteps c1 = MonteCarloConfig.num_timesteps c2"
    and "MonteCarloConfig.use_antithetic c1 = MonteCarloConfig.use_antithetic c2"
    and "stake (mc_draws c1 opt) (gen1 (MonteCarloConfig.seed c1))
           = stake (mc_draws c1 opt) (gen2 (MonteCarloConfig.seed c1))"
    and "LSMC_Config.seed l1 = LSMC_Config.seed l2"
    and "LSMC_Config.num_paths l1 = LSMC_Config.num_paths l2"
    and "LSMC_Config.num_timesteps l1 = LSMC_Config.num_timesteps l2"
    and "LSMC_Config.use_antithetic l1 = LSMC_Config.use_antithetic l2"
    and "polynomial_degree l1 = polynomial_degree l2"
    and "stake (lsmc_draws l1 opt') (gen1 (LSMC_Config.seed l1))
           = stake (lsmc_draws l1 opt') (gen2 (LSMC_Config.seed l1))"
  shows "fst (MonteCarloModel_price (MonteCarloModel_new gen1 c1) opt md)
           = fst (MonteCarloModel_price (MonteCarloModel_new gen2 c2) opt md)
       \<and> MonteCarloModel.rng (snd (MonteCarloModel_price (MonteCarloModel_new gen1 c1) opt md))
           = sdrop (mc_draws c1 opt) (gen1 (MonteCarloConfig.seed c1))
       \<and> fst (LSMCModel_price (LSMCModel_new gen1 l1) opt' md')
           = fst (LSMCModel_price (LSMCModel_new gen2 l2) opt' md')
       \<and> LSMCModel.rng (snd (LSMCModel_price (LSMCModel_new gen1 l1) opt' md'))
           = sdrop (lsmc_draws l1 opt') (gen1 (LSMC_Config.seed l1))"
proof -
  have l: "l1 = l2" using assms(6-10) by simp
  have "fst (MonteCarloModel_price (MonteCarloModel_new gen1 c1) opt md)
          = fst (MonteCarloModel_price
                   \<lparr>MonteCarloModel.config = c1,
                      MonteCarloModel.rng = gen2 (MonteCarloConfig.seed c1)\<rparr> opt md)"
    unfolding MonteCarloModel_new_def using assms(5) by (rule mc_price_prefix)
  also have "\<dots> = fst (MonteCarloModel_price (MonteCarloModel_new gen2 c2) opt md)"
    unfolding MonteCarloModel_new_def assms(1) [symmetric]
    using assms(2,3,4) by (rule mc_price_config(1))
  finally have mc: "fst (MonteCarloModel_price (MonteCarloModel_new gen1 c1) opt md)
          = fst (MonteCarloModel_price (MonteCarloModel_new gen2 c2) opt md)" .
  have ls: "fst (LSMCModel_price (LSMCModel_new gen1 l1) opt' md')
          = fst (LSMCModel_price (LSMCModel_new gen2 l2) opt' md')"
    unfolding LSMCModel_new_def l [symmetric] using assms(11) by (rule lsmc_price_prefix)
  show ?thesis
    using mc ls by (simp add: MonteCarloModel_new_def LSMCModel_new_def mc_price_rng lsmc_price_rng)
qed

theorem same_outputs_same_price_witness:
  "short_gen 12345 !! 4 \<noteq> long_gen 12345 !! 4
   \<and> fst (MonteCarloModel_price (MonteCarloModel_new short_gen antithetic_pair_config)
            european_call md_flat)
       = fst (MonteCarloModel_price
                (MonteCarloModel_new long_gen (antithetic_pair_config\<lparr>use_control_variate := True\<rparr>))
                european_call md_flat)
   \<and> MonteCarloModel.rng
        (snd (MonteCarloModel_price (MonteCarloModel_new short_gen antithetic_pair_config)
                european_call md_flat))
       = sdrop (mc_draws antithetic_pair_config european_call) (short_gen 12345)
   \<and> mc_draws antithetic_pair_config european_call = 1
   \<and> fst (LSMCModel_price (LSMCModel_new short_gen lsmc_small) american_put md_flat)
       = fst (LSMCModel_price (LSMCModel_new long_gen lsmc_small) american_put md_flat)
   \<and> LSMCModel.rng
        (snd (LSMCModel_price (LSMCModel_new short_gen lsmc_small) american_put md_flat))
       = sdrop (lsmc_draws lsmc_small american_put) (short_gen 12345)
   \<and> lsmc_draws lsmc_small american_put = 4"
proof -
  have d1: "mc_draws antithetic_pair_config european_call = 1"
    by (simp add: mc_draws_def antithetic_pair_config_def european_call_def)
  have d2: "lsmc_draws lsmc_small american_put = 4"
    by (simp add: lsmc_draws_def lsmc_small_def american_put_def)
  have s1: "MonteCarloConfig.seed antithetic_pair_config = 12345"
    by (simp add: antithetic_pair_config_def)
  have s2: "LSMC_Config.seed lsmc_small = 12345"
    by (simp add: lsmc_small_def)
  have p1: "stake (mc_draws antithetic_pair_config european_call)
              (short_gen (MonteCarloConfig.seed antithetic_pair_config))
          = stake (mc_draws antithetic_pair_config european_call)
              (long_gen (MonteCarloConfig.seed antithetic_pair_config))"
    unfolding d1 s1 by (simp add: short_gen_def long_gen_def)
  have p2: "stake (lsmc_draws lsmc_small american_put) (short_gen (LSMC_Config.seed lsmc_small))
          = stake (lsmc_draws lsmc_small american_put) (long_gen (LSMC_Config.seed lsmc_small))"
    unfolding d2 s2 by (simp add: short_gen_def long_gen_def eval_nat_numeral)
  have ne: "short_gen 12345 !! 4 \<noteq> long_gen 12345 !! 4"
    by (simp add: short_gen_def long_gen_def eval_nat_numeral)
  note t = same_outputs_same_price
      [of antithetic_pair_config "antithetic_pair_config\<lparr>use_control_variate := True\<rparr>"
          european_call short_gen long_gen lsmc_small lsmc_small american_put md_flat md_flat,
       unfolded s1 s2]
  have "fst (MonteCarloModel_price (MonteCarloModel_new short_gen antithetic_pair_config)
            european_call md_flat)
       = fst (MonteCarloModel_price
                (MonteCarloModel_new long_gen (antithetic_pair_config\<lparr>use_control_variate := True\<rparr>))
                european_call md_flat)
   \<and> MonteCarloModel.rng
        (snd (MonteCarloModel_price (MonteCarloModel_new short_gen antithetic_pair_config)
                european_call md_flat))
       = sdrop (mc_draws antithetic_pair_config european_call) (short_gen 12345)
   \<and> fst (LSMCModel_price (LSMCModel_new short_gen lsmc_small) american_put md_flat)
       = fst (LSMCModel_price (LSMCModel_new long_gen lsmc_small) american_put md_flat)
   \<and> LSMCModel.rng
        (snd (LSMCModel_price (LSMCModel_new short_gen lsmc_small) american_put md_flat))
       = sdrop (lsmc_draws lsmc_small american_put) (short_gen 12345)"
    using p1 p2 by (intro t) (simp_all add: antithetic_pair_config_def s1 s2)
  then show ?thesis using ne d1 d2 by blast
qed

section \<open>The default Greeks\<close>

text \<open>
  Claim C10.  Whenever \<^verbatim>\<open>numerical_greeks\<close> returns, it has made six calls of the engine's
  \<^verbatim>\<open>price\<close>: the base price and the prices under a spot bump up, a spot bump down, a
  volatility bump and a rate bump are all of the option it was given; the price behind
  theta is of a newly built base-class option, a plain vanilla contract with the strike,
  type and style of the original and its expiry less the time bump.
\<close>

theorem theta_reprices_vanilla:
  assumes "numerical_greeks price m opt md spot_bump vol_bump rate_bump time_bump = (Inr g, m')"
  shows "\<exists>base_price price_up price_down vega_price theta_price rho_price m1 m2 m3 m4 m5.
           price m opt md = (Inr base_price, m1)
         \<and> price m1 opt \<lparr>spot = spot md * (1 + spot_bump), rate = rate md,
                          volatility = volatility md, dividend = dividend md\<rparr> = (Inr price_up, m2)
         \<and> price m2 opt \<lparr>spot = spot md * (1 - spot_bump), rate = rate md,
                          volatility = volatility md, dividend = dividend md\<rparr> = (Inr price_down, m3)
         \<and> price m3 opt \<lparr>spot = spot md, rate = rate md,
                          volatility = volatility md + vol_bump, dividend = dividend md\<rparr> = (Inr vega_price, m4)
         \<and> price m4 \<lparr>strike = strike opt, expiry = expiry opt - time_bump, otype = otype opt,
                       style = style opt, product = Vanilla\<rparr> md = (Inr theta_price, m5)
         \<and> price m5 opt \<lparr>spot = spot md, rate = rate md + rate_bump,
                          volatility = volatility md, dividend = dividend md\<rparr> = (Inr rho_price, m')
         \<and> delta g = (price_up - price_down) / (2 * spot md * spot_bump)
         \<and> gamma g = (price_up - 2 * base_price + price_down) / (spot md * spot_bump) ^ 2
         \<and> vega g = (vega_price - base_price) / vol_bump
         \<and> Greeks.theta g = (theta_price - base_price) / time_bump
         \<and> Greeks.rho g = (rho_price - base_price) / rate_bump"
  using assms
  unfolding numerical_greeks_def MarketData_new_def Option_new_def
  by (fastforce split: prod.splits sum.splits if_splits)

theorem theta_reprices_vanilla_witness:
  "default_greeks intrinsic_price () digital_call md_itm
     = (Inr \<lparr>delta = 0, gamma = 0, vega = 0, theta = 3650, rho = 0\<rparr>, ())
   \<and> (\<exists>theta_price base_price.
         intrinsic_price () \<lparr>strike = strike digital_call, expiry = expiry digital_call - 1 / 365,
                              otype = otype digital_call, style = style digital_call,
                              product = Vanilla\<rparr> md_itm = (Inr theta_price, ())
       \<and> intrinsic_price () digital_call md_itm = (Inr base_price, ())
       \<and> (theta_price - base_price) / (1 / 365) = 3650)"
proof -
  have h: "numerical_greeks intrinsic_price () digital_call md_itm 0.01 0.001 0.0001 (1 / 365)
             = (Inr \<lparr>delta = 0, gamma = 0, vega = 0, theta = 3650, rho = 0\<rparr>, ())"
    by (simp add: numerical_greeks_def intrinsic_price_def digital_call_def md_itm_def
        MarketData_new_def Option_new_def payoff_def Option_payoff_def)
  show ?thesis
    using h theta_reprices_vanilla [OF h]
    by (auto simp: default_greeks_def)
qed

section \<open>The Heston path\<close>

lemma correlated_normals_draws:
  "correlated_normals c g = ((g !! 0, correlated_shock c (g !! 0) (g !! 1)), sdrop 2 g)"
  by (simp add: correlated_normals_def next_normal_def correlated_shock_def power2_eq_square
      numeral_2_eq_2)

lemma heston_steps_spec:
  "heston_steps hp r q dt' n S v g = ((Ss, vs), g') \<Longrightarrow>
     length Ss = n \<and> length vs = n \<and> g' = sdrop (2 * n) g
     \<and> (\<forall>i<n. (v # vs) ! Suc i
                 = max ((v # vs) ! i) 0
                   + variance_increment hp (max ((v # vs) ! i) 0) dt'
                       (correlated_shock (HestonParams.rho hp) (g !! (2 * i)) (g !! (2 * i + 1)))
              \<and> (S # Ss) ! Suc i
                 = (S # Ss) ! i
                   + asset_increment r q ((S # Ss) ! i) (max ((v # vs) ! i) 0) dt' (g !! (2 * i)))"
proof (induction n arbitrary: S v g Ss vs g')
  case 0
  then show ?case by simp
next
  case (Suc n)
  let ?Z1 = "g !! 0"
  let ?Z2 = "correlated_shock (HestonParams.rho hp) (g !! 0) (g !! 1)"
  let ?vp = "max v 0"
  let ?v1 = "?vp + variance_increment hp ?vp dt' ?Z2"
  let ?S1 = "S + asset_increment r q S ?vp dt' ?Z1"
  obtain Ss' vs' g2 where rec: "heston_steps hp r q dt' n ?S1 ?v1 (sdrop 2 g) = ((Ss', vs'), g2)"
    by (metis prod.exhaust)
  have unfold: "heston_steps hp r q dt' (Suc n) S v g = ((?S1 # Ss', ?v1 # vs'), g2)"
    using rec
    by (simp add: correlated_normals_draws variance_increment_def asset_increment_def Let_def)
  then have eqs: "Ss = ?S1 # Ss'" "vs = ?v1 # vs'" "g' = g2" using Suc.prems by simp_all
  note ih = Suc.IH [OF rec]
  have len: "length Ss = Suc n \<and> length vs = Suc n" using ih eqs by simp
  have drop: "g' = sdrop (2 * Suc n) g"
  proof -
    have "sdrop (2 * n) (sdrop 2 g) = sdrop (2 + 2 * n) g" by (simp only: sdrop_add)
    then show ?thesis using ih eqs by (simp add: add.commute)
  qed
  have steps: "\<forall>i<Suc n.
      (v # vs) ! Suc i
        = max ((v # vs) ! i) 0
          + variance_increment hp (max ((v # vs) ! i) 0) dt'
              (correlated_shock (HestonParams.rho hp) (g !! (2 * i)) (g !! (2 * i + 1)))
      \<and> (S # Ss) ! Suc i
        = (S # Ss) ! i + asset_increment r q ((S # Ss) ! i) (max ((v # vs) ! i) 0) dt' (g !! (2 * i))"
  proof (intro allI impI)
    fix i assume i: "i < Suc n"
    show "(v # vs) ! Suc i
        = max ((v # vs) ! i) 0
          + variance_increment hp (max ((v # vs) ! i) 0) dt'
              (correlated_shock (HestonParams.rho hp) (g !! (2 * i)) (g !! (2 * i + 1)))
      \<and> (S # Ss) ! Suc i
        = (S # Ss) ! i + asset_increment r q ((S # Ss) ! i) (max ((v # vs) ! i) 0) dt' (g !! (2 * i))"
    proof (cases i)
      case 0
      then show ?thesis by (simp add: eqs)
    next
      case (Suc k)
      then have k: "k < n" using i by simp
      have s1: "sdrop 2 g !! (2 * k) = g !! (2 * Suc k)"
        unfolding sdrop_snth by (rule arg_cong [where f = "snth g"]) simp
      have s2: "sdrop 2 g !! (2 * k + 1) = g !! (2 * Suc k + 1)"
        unfolding sdrop_snth by (rule arg_cong [where f = "snth g"]) simp
      from ih k have "(?v1 # vs') ! Suc k
          = max ((?v1 # vs') ! k) 0
            + variance_increment hp (max ((?v1 # vs') ! k) 0) dt'
                (correlated_shock (HestonParams.rho hp) (sdrop 2 g !! (2 * k)) (sdrop 2 g !! (2 * k + 1)))
        \<and> (?S1 # Ss') ! Suc k
          = (?S1 # Ss') ! k
            + asset_increment r q ((?S1 # Ss') ! k) (max ((?v1 # vs') ! k) 0) dt' (sdrop 2 g !! (2 * k))"
        by blast
      then show ?thesis unfolding s1 s2 by (simp add: Suc eqs)
    qed
  qed
  show ?case using len drop steps by blast
qed

text \<open>The square root the sample path needs, and the path itself.\<close>

lemma sqrt_one_25: "sqrt (1 / 25) = 1 / 5"
proof -
  have "sqrt ((1 / 5)\<^sup>2) = \<bar>1 / 5 :: real\<bar>" by (rule real_sqrt_abs)
  then show ?thesis by (simp add: power2_eq_square)
qed

lemma heston_two_steps:
  "HestonModel_simulate_path HestonParams_default 100 (v0 HestonParams_default) md_flat 2 2
       heston_shocks
     = (([100, 300, 300], [1 / 25, - (19 / 50), 2 / 25]), sconst 0)"
  by (simp add: HestonModel_simulate_path_def correlated_normals_def next_normal_def
      HestonParams_default_def md_flat_def heston_shocks_def Let_def eval_nat_numeral sqrt_one_25)

text \<open>
  Claim C6, as the code has it.  A simulated Heston path starts at the given spot and
  variance and consumes two fresh draws per step.  At step \<open>i\<close>, with \<open>v\<^sup>+\<close> the previous
  variance floored at 0, \<open>Z1\<close> the first draw and \<open>Z2 = \<rho> Z1 + \<surd>(1 - \<rho>\<^sup>2) Z2'\<close> built from
  the second, the increments \<open>dv\<close> and \<open>dS\<close> are those of the specification and the new
  spot is \<open>S + dS\<close>; the new variance is \<open>v\<^sup>+ + dv\<close>, the increment added to the floored
  variance and not to the stored one.
\<close>

theorem heston_path_step:
  assumes "HestonModel_simulate_path hp S0 v_init md T num_steps g = ((S_path, v_path), g')"
  shows "length S_path = num_steps + 1 \<and> length v_path = num_steps + 1
       \<and> S_path ! 0 = S0 \<and> v_path ! 0 = v_init
       \<and> g' = sdrop (2 * num_steps) g
       \<and> (\<forall>i<num_steps.
            v_path ! Suc i
              = max (v_path ! i) 0
                + variance_increment hp (max (v_path ! i) 0) (T / real num_steps)
                    (correlated_shock (HestonParams.rho hp) (g !! (2 * i)) (g !! (2 * i + 1)))
          \<and> S_path ! Suc i
              = S_path ! i
                + asset_increment (rate md) (dividend md) (S_path ! i) (max (v_path ! i) 0)
                    (T / real num_steps) (g !! (2 * i)))"
proof -
  obtain Ss vs g2 where
    rec: "heston_steps hp (rate md) (dividend md) (T / real num_steps) num_steps S0 v_init g
            = ((Ss, vs), g2)"
    by (metis prod.exhaust)
  then have eqs: "S_path = S0 # Ss" "v_path = v_init # vs" "g' = g2"
    using assms by (simp_all add: HestonModel_simulate_path_def Let_def)
  show ?thesis using heston_steps_spec [OF rec] unfolding eqs by simp
qed

theorem heston_path_step_witness:
  "HestonModel_simulate_path HestonParams_default 100 (v0 HestonParams_default) md_flat 2 2
       heston_shocks
     = (([100, 300, 300], [1 / 25, - (19 / 50), 2 / 25]), sconst 0)
   \<and> sconst 0 = sdrop (2 * 2) heston_shocks
   \<and> [1 / 25, - (19 / 50), 2 / 25 :: real] ! Suc 0
       = max ([1 / 25, - (19 / 50), 2 / 25] ! 0) 0
         + variance_increment HestonParams_default (max ([1 / 25, - (19 / 50), 2 / 25] ! 0) 0)
             (2 / real (2::nat))
             (correlated_shock (HestonParams.rho HestonParams_default)
                (heston_shocks !! (2 * 0)) (heston_shocks !! (2 * 0 + 1)))
   \<and> [100, 300, 300 :: real] ! Suc 0
       = [100, 300, 300] ! 0
         + asset_increment (rate md_flat) (dividend md_flat) ([100, 300, 300] ! 0)
             (max ([1 / 25, - (19 / 50), 2 / 25] ! 0) 0) (2 / real (2::nat))
             (heston_shocks !! (2 * 0))
   \<and> [1 / 25, - (19 / 50), 2 / 25 :: real] ! Suc 1
       = max ([1 / 25, - (19 / 50), 2 / 25] ! 1) 0
         + variance_increment HestonParams_default (max ([1 / 25, - (19 / 50), 2 / 25] ! 1) 0)
             (2 / real (2::nat))
             (correlated_shock (HestonParams.rho HestonParams_default)
                (heston_shocks !! (2 * 1)) (heston_shocks !! (2 * 1 + 1)))
   \<and> [100, 300, 300 :: real] ! Suc 1
       = [100, 300, 300] ! 1
         + asset_increment (rate md_flat) (dividend md_flat) ([100, 300, 300] ! 1)
             (max ([1 / 25, - (19 / 50), 2 / 25] ! 1) 0) (2 / real (2::nat))
             (heston_shocks !! (2 * 1))
   \<and> max ([1 / 25, - (19 / 50), 2 / 25 :: real] ! 1) 0 = 0
   \<and> correlated_shock (HestonParams.rho HestonParams_default)
        (heston_shocks !! (2 * 0)) (heston_shocks !! (2 * 0 + 1)) = - 7"
proof -
  note h = heston_two_steps
  note step = heston_path_step [OF h]
  have g: "sconst 0 = sdrop (2 * 2) heston_shocks" using step by blast
  have all: "\<forall>i<(2::nat).
          [1 / 25, - (19 / 50), 2 / 25 :: real] ! Suc i
            = max ([1 / 25, - (19 / 50), 2 / 25] ! i) 0
              + variance_increment HestonParams_default (max ([1 / 25, - (19 / 50), 2 / 25] ! i) 0)
                  (2 / real (2::nat))
                  (correlated_shock (HestonParams.rho HestonParams_default)
                     (heston_shocks !! (2 * i)) (heston_shocks !! (2 * i + 1)))
          \<and> [100, 300, 300 :: real] ! Suc i
            = [100, 300, 300] ! i
              + asset_increment (rate md_flat) (dividend md_flat) ([100, 300, 300] ! i)
                  (max ([1 / 25, - (19 / 50), 2 / 25] ! i) 0) (2 / real (2::nat))
                  (heston_shocks !! (2 * i))"
    using step by blast
  have s0: "[1 / 25, - (19 / 50), 2 / 25 :: real] ! Suc 0
            = max ([1 / 25, - (19 / 50), 2 / 25] ! 0) 0
              + variance_increment HestonParams_default (max ([1 / 25, - (19 / 50), 2 / 25] ! 0) 0)
                  (2 / real (2::nat))
                  (correlated_shock (HestonParams.rho HestonParams_default)
                     (heston_shocks !! (2 * 0)) (heston_shocks !! (2 * 0 + 1)))
          \<and> [100, 300, 300 :: real] ! Suc 0
            = [100, 300, 300] ! 0
              + asset_increment (rate md_flat) (dividend md_flat) ([100, 300, 300] ! 0)
                  (max ([1 / 25, - (19 / 50), 2 / 25] ! 0) 0) (2 / real (2::nat))
                  (heston_shocks !! (2 * 0))"
    using all by (rule allE [where x = 0]) simp
  have s1: "[1 / 25, - (19 / 50), 2 / 25 :: real] ! Suc 1
            = max ([1 / 25, - (19 / 50), 2 / 25] ! 1) 0
              + variance_increment HestonParams_default (max ([1 / 25, - (19 / 50), 2 / 25] ! 1) 0)
                  (2 / real (2::nat))
                  (correlated_shock (HestonParams.rho HestonParams_default)
                     (heston_shocks !! (2 * 1)) (heston_shocks !! (2 * 1 + 1)))
          \<and> [100, 300, 300 :: real] ! Suc 1
            = [100, 300, 300] ! 1
              + asset_increment (rate md_flat) (dividend md_flat) ([100, 300, 300] ! 1)
                  (max ([1 / 25, - (19 / 50), 2 / 25] ! 1) 0) (2 / real (2::nat))
                  (heston_shocks !! (2 * 1))"
    using all by (rule allE [where x = 1]) simp
  have fl: "max ([1 / 25, - (19 / 50), 2 / 25 :: real] ! 1) 0 = 0" by simp
  have sh: "correlated_shock (HestonParams.rho HestonParams_default)
        (heston_shocks !! (2 * 0)) (heston_shocks !! (2 * 0 + 1)) = - 7"
    by (simp add: correlated_shock_def HestonParams_default_def heston_shocks_def)
  show ?thesis using h g s0 s1 fl sh by blast
qed

text \<open>
  A full-truncation scheme floors the variance inside the increment only and advances the
  stored variance, \<open>v[i+1] = v[i] + dv\<close>.  The code does not: with the default
  parameters, two steps over two years and a first draw of 10, the variance after the
  first step is \<open>-19/50\<close> and the second step stores \<open>2/25\<close>, which is \<open>0 + dv\<close> and not
  \<open>-19/50 + dv\<close>.
\<close>

theorem heston_variance_added_to_floor_counterexample:
  "snd (fst (HestonModel_simulate_path HestonParams_default 100 (v0 HestonParams_default)
               md_flat 2 2 heston_shocks)) ! 2
     \<noteq> snd (fst (HestonModel_simulate_path HestonParams_default 100 (v0 HestonParams_default)
                 md_flat 2 2 heston_shocks)) ! 1
       + variance_increment HestonParams_default
           (max (snd (fst (HestonModel_simulate_path HestonParams_default 100
                             (v0 HestonParams_default) md_flat 2 2 heston_shocks)) ! 1) 0)
           (2 / real (2::nat))
           (correlated_shock (HestonParams.rho HestonParams_default)
              (heston_shocks !! 2) (heston_shocks !! 3))"
  unfolding heston_two_steps
  by (simp add: variance_increment_def correlated_shock_def HestonParams_default_def
      heston_shocks_def eval_nat_numeral)

section \<open>Too few in-the-money paths\<close>

lemma unat_signed_32_64:
  "unat (signed (w :: 32 word) :: 64 word) = nat (sint w mod 2 ^ 64)"
proof -
  have "(signed w :: 64 word) = word_of_int (sint w)" by simp
  then show ?thesis by (simp only: unat_eq_nat_uint uint_word_of_int) simp
qed

lemma sint_succ_32:
  "sint ((w :: 32 word) + 1) = signed_take_bit 31 (sint w + 1)"
  by (simp add: sint_word_ariths)

lemma threshold_above:
  fixes dg :: "32 word" and n :: nat
  assumes "int n < sint dg + 1"
  shows "n < unat (signed (dg + 1) :: 64 word)"
proof -
  have up: "sint dg < 2 ^ 31" using sint_lt [of dg] by simp
  have lo: "- (2 ^ 31) \<le> sint dg" using sint_ge [of dg] by simp
  show ?thesis
  proof (cases "sint dg + 1 < 2 ^ 31")
    case True
    have "signed_take_bit 31 (sint dg + 1) = sint dg + 1"
      using True lo by (simp add: signed_take_bit_int_eq_self)
    then have s: "sint (dg + 1) = sint dg + 1" by (simp only: sint_succ_32)
    have "0 \<le> sint dg + 1" using assms by linarith
    then have "(sint dg + 1) mod 2 ^ 64 = sint dg + 1" using True by simp
    then have "unat (signed (dg + 1) :: 64 word) = nat (sint dg + 1)"
      by (simp only: unat_signed_32_64 s)
    then show ?thesis using assms by linarith
  next
    case False
    then have top: "sint dg + 1 = 2 ^ 31" using up by linarith
    have "signed_take_bit 31 (2 ^ 31 :: int) = - (2 ^ 31)" by simp
    then have s: "sint (dg + 1) = - (2 ^ 31)" by (simp only: sint_succ_32 top)
    have m: "(- (2 ^ 31) :: int) mod 2 ^ 64 = 2 ^ 64 - 2 ^ 31" by simp
    have n: "int n < 2 ^ 31" using assms top by linarith
    have "unat (signed (dg + 1) :: 64 word) = nat (2 ^ 64 - 2 ^ 31)"
      by (simp only: unat_signed_32_64 s m)
    then show ?thesis using n by simp
  qed
qed

text \<open>
  Claim C5.  At a time step where the number of in-the-money paths is below
  \<open>polynomial_degree + 1\<close>, the round returns the cash-flow matrix it was given, without
  an error, and the backward loop goes on with the remaining time steps.
\<close>

theorem regression_skipped_when_few_itm:
  assumes "int (length (itm_indices cfg opt paths t)) < sint (polynomial_degree cfg) + 1"
  shows "lsmc_step cfg opt r dt' paths t cash_flows = Inr cash_flows
       \<and> lsmc_backward cfg opt r dt' paths (t # ts) cash_flows
           = lsmc_backward cfg opt r dt' paths ts cash_flows"
proof -
  have "length (itm_indices cfg opt paths t) < regression_threshold cfg"
    unfolding regression_threshold_def using assms by (rule threshold_above)
  then have "lsmc_step cfg opt r dt' paths t cash_flows = Inr cash_flows"
    by (simp add: lsmc_step_def Let_def)
  then show ?thesis by simp
qed

theorem regression_skipped_when_few_itm_witness:
  "int (length (itm_indices lsmc_small american_put paths_small 1))
     < sint (polynomial_degree lsmc_small) + 1
   \<and> lsmc_step lsmc_small american_put 0 (1 / 2) paths_small 1 cash_flows_small
       = Inr cash_flows_small
   \<and> lsmc_backward lsmc_small american_put 0 (1 / 2) paths_small [1] cash_flows_small
       = Inr cash_flows_small"
proof -
  have r: "[0..<2] = [0, Suc 0]" by (simp add: upt_rec)
  have i: "itm_indices lsmc_small american_put paths_small 1 = [0]"
    by (simp add: itm_indices_def lsmc_small_def american_put_def paths_small_def r
        payoff_def Option_payoff_def)
  have i': "itm_indices lsmc_small american_put paths_small (Suc 0) = [0]"
    using i by simp
  have d: "sint (polynomial_degree lsmc_small) = 3" by (simp add: lsmc_small_def)
  have h: "int (length (itm_indices lsmc_small american_put paths_small 1))
             < sint (polynomial_degree lsmc_small) + 1"
    by (simp add: i' d)
  show ?thesis
    using h regression_skipped_when_few_itm [OF h, of 0 "1 / 2" cash_flows_small "[]"]
    by (simp add: i' d)
qed

section \<open>Asian payoffs and the two averages\<close>




text \<open>The largest finite double, and the two running accumulations.\<close>

lemma DBL_MAX_lower: "2 ^ 1023 \<le> DBL_MAX"
proof -
  have "(1::real) \<le> 2 - 1 / 2 ^ 52" by simp
  then have "1 * (2::real) ^ 1023 \<le> (2 - 1 / 2 ^ 52) * 2 ^ 1023"
    by (intro mult_right_mono) simp_all
  then show ?thesis by (simp add: DBL_MAX_def)
qed

lemma DBL_MAX_pos: "0 < DBL_MAX"
proof -
  have "(0::real) < 2 ^ 1023" by simp
  then show ?thesis using DBL_MAX_lower by linarith
qed

lemma overflow_Finite: "- DBL_MAX \<le> x \<Longrightarrow> x \<le> DBL_MAX \<Longrightarrow> overflow x = Finite x"
  by (simp add: overflow_def)

lemma overflow_positive: "0 \<le> x \<Longrightarrow> overflow x = (if x > DBL_MAX then PosInf else Finite x)"
  using DBL_MAX_pos by (simp add: overflow_def)

text \<open>The running sum of positive observations: the exact sum, or \<open>+\<infinity>\<close>.\<close>

lemma running_sum_PosInf:
  "fold (\<lambda>obs acc. float_add acc (Finite obs)) xs PosInf = PosInf"
  by (induction xs) simp_all

lemma running_sum_positive:
  assumes "\<forall>x\<in>set xs. 0 < x" and "0 \<le> a" and "a \<le> DBL_MAX"
  shows "(fold (\<lambda>obs acc. float_add acc (Finite obs)) xs (Finite a) = Finite (a + sum_list xs)
            \<and> a + sum_list xs \<le> DBL_MAX)
         \<or> (fold (\<lambda>obs acc. float_add acc (Finite obs)) xs (Finite a) = PosInf
            \<and> DBL_MAX < a + sum_list xs)"
  using assms
proof (induction xs arbitrary: a)
  case Nil
  then show ?case by simp
next
  case (Cons x xs)
  have x: "0 < x" and rest: "\<forall>y\<in>set xs. 0 < y" using Cons.prems(1) by simp_all
  have nn: "0 \<le> a + x" using x Cons.prems(2) by simp
  have tail: "0 \<le> sum_list xs" using rest by (intro sum_list_nonneg) (simp add: less_imp_le)
  show ?case
  proof (cases "a + x > DBL_MAX")
    case True
    then have "overflow (a + x) = PosInf" using nn by (simp add: overflow_positive)
    then show ?thesis using True tail by (simp add: running_sum_PosInf)
  next
    case False
    then have s: "overflow (a + x) = Finite (a + x)"
      using nn by (simp add: overflow_positive)
    have le: "a + x \<le> DBL_MAX" using False by simp
    show ?thesis using Cons.IH [OF rest nn le] by (simp add: s add.assoc)
  qed
qed

text \<open>The running product of positive observations: the exact product, or \<open>+\<infinity>\<close>.\<close>

lemma running_product_PosInf:
  "\<forall>x\<in>set xs. 0 < x \<Longrightarrow>
     fold (\<lambda>obs product. float_mult product (Finite obs)) xs PosInf = PosInf"
  by (induction xs) simp_all

lemma running_product_positive:
  assumes "\<forall>x\<in>set xs. 0 < x" and "0 < a" and "a \<le> DBL_MAX"
  shows "(fold (\<lambda>obs product. float_mult product (Finite obs)) xs (Finite a)
            = Finite (a * prod_list xs) \<and> a * prod_list xs \<le> DBL_MAX)
         \<or> fold (\<lambda>obs product. float_mult product (Finite obs)) xs (Finite a) = PosInf"
  using assms
proof (induction xs arbitrary: a)
  case Nil
  then show ?case by simp
next
  case (Cons x xs)
  have x: "0 < x" and rest: "\<forall>y\<in>set xs. 0 < y" using Cons.prems(1) by simp_all
  have pos: "0 < a * x" using x Cons.prems(2) by simp
  show ?case
  proof (cases "a * x > DBL_MAX")
    case True
    then have "overflow (a * x) = PosInf"
      using pos by (simp add: overflow_positive)
    then show ?thesis using rest by (simp add: running_product_PosInf)
  next
    case False
    then have s: "overflow (a * x) = Finite (a * x)"
      using pos by (simp add: overflow_positive)
    have le: "a * x \<le> DBL_MAX" using False by simp
    show ?thesis using Cons.IH [OF rest pos le] by (simp add: s mult.assoc)
  qed
qed

lemma one_le_DBL_MAX: "1 \<le> DBL_MAX"
proof -
  have "(1::real) \<le> 2 ^ 1023" by (rule one_le_power) simp
  then show ?thesis using DBL_MAX_lower by linarith
qed









text \<open>
  One hundred and fifty-five observations of 100: the running product passes the largest
  finite double, the geometric average is \<open>+\<infinity>\<close> and the arithmetic average is 100.
\<close>

lemma DBL_MAX_upper: "DBL_MAX < 2 ^ 1024"
proof -
  have "(2 - 1 / 2 ^ 52) * (2::real) ^ 1023 < 2 * 2 ^ 1023"
    by (intro mult_strict_right_mono) simp_all
  then show ?thesis by (simp add: DBL_MAX_def)
qed

lemma geometric_average_overflow:
  "calculate_average GEOMETRIC (replicate 155 100) = PosInf
   \<and> calculate_average ARITHMETIC (replicate 155 100) = Finite 100
   \<and> \<not> float_le (calculate_average GEOMETRIC (replicate 155 100))
                 (calculate_average ARITHMETIC (replicate 155 100))"
proof -
  have pos: "\<forall>x\<in>set (replicate 155 (100::real)). 0 < x" by simp
  have big: "(2::real) ^ 1024 \<le> 100 ^ 155" by simp
  have over: "\<not> 1 * prod_list (replicate 155 (100::real)) \<le> DBL_MAX"
    using DBL_MAX_upper big by (simp add: prod_list_replicate)
  have prod: "fold (\<lambda>obs product. float_mult product (Finite obs)) (replicate 155 100) (Finite 1)
                = PosInf"
    using running_product_positive [OF pos zero_less_one one_le_DBL_MAX] over by blast
  have g: "calculate_average GEOMETRIC (replicate 155 100) = PosInf"
    unfolding calculate_average_def prod by simp
  have small: "(15500::real) \<le> 2 ^ 1023" by simp
  have fits: "\<not> DBL_MAX < 0 + sum_list (replicate 155 (100::real))"
    using DBL_MAX_lower small by (simp add: sum_list_replicate)
  have sum: "fold (\<lambda>obs acc. float_add acc (Finite obs)) (replicate 155 100) (Finite 0)
                = Finite (0 + sum_list (replicate 155 100))"
    using running_sum_positive [OF pos, of 0] DBL_MAX_pos fits by (simp add: less_imp_le)
  have a: "calculate_average ARITHMETIC (replicate 155 100) = Finite 100"
    unfolding calculate_average_def sum by (simp add: sum_list_replicate)
  show ?thesis unfolding g a by simp
qed

section \<open>Early exercise in the binomial lattice\<close>

lemma american_node_value:
  "american_node ps opt S step vs i = vs[i := american_value ps opt S step i (vs ! i) (vs ! (i + 1))]"
  by (simp add: american_node_def american_value_def Let_def)

lemma american_sweep:
  fixes f :: "nat \<Rightarrow> real list \<Rightarrow> real list"
  assumes f: "\<And>i vs. f i vs = american_node ps opt S step vs i"
  shows "n < length vs \<Longrightarrow>
   length (fold f [0..<n] vs) = length vs
   \<and> (\<forall>j<length vs.
         fold f [0..<n] vs ! j
           = (if j < n then american_value ps opt S step j (vs ! j) (vs ! (j + 1)) else vs ! j))"
proof (induction n)
  case 0
  show ?case by simp
next
  case (Suc n)
  let ?w = "fold f [0..<n] vs"
  have n: "n < length vs" "Suc n < length vs" using Suc.prems by simp_all
  have len: "length ?w = length vs" using Suc.IH n by simp
  have nth: "\<And>j. j < length vs \<Longrightarrow>
        ?w ! j = (if j < n then american_value ps opt S step j (vs ! j) (vs ! (j + 1)) else vs ! j)"
    using Suc.IH n by simp
  have wn: "?w ! n = vs ! n" "?w ! (n + 1) = vs ! (n + 1)" using nth n by simp_all
  have "fold f [0..<Suc n] vs = f n ?w" by simp
  also have "\<dots> = ?w[n := american_value ps opt S step n (?w ! n) (?w ! (n + 1))]"
    by (simp only: f american_node_value)
  finally have unfold: "fold f [0..<Suc n] vs
                  = ?w[n := american_value ps opt S step n (vs ! n) (vs ! (n + 1))]"
    by (simp only: wn)
  show ?case
    unfolding unfold using len nth n by (auto simp: nth_list_update less_Suc_eq)
qed

lemma american_step_nth:
  assumes "Suc step < length vs" and "j < length vs"
  shows "american_step ps opt S step vs ! j
           = (if j \<le> step then american_value ps opt S step j (vs ! j) (vs ! (j + 1)) else vs ! j)"
    and "length (american_step ps opt S step vs) = length vs"
  using american_sweep [of "\<lambda>i vs. american_node ps opt S step vs i" ps opt S step "Suc step" vs] assms
  by (auto simp: american_step_def less_Suc_eq_le simp del: upt_Suc)

lemma backward_unfold:
  "s < n \<Longrightarrow> fold f (rev [s..<n]) vs = f s (fold f (rev [Suc s..<n]) vs)"
  by (simp add: upt_conv_Cons)

lemma american_backward:
  assumes "s \<le> num_steps"
  shows "length (fold (american_step ps opt S) (rev [s..<num_steps])
                  (terminal_values ps opt S num_steps)) = Suc num_steps
       \<and> (\<forall>i. i \<le> s \<longrightarrow>
              fold (american_step ps opt S) (rev [s..<num_steps])
                (terminal_values ps opt S num_steps) ! i
              = american_lattice ps opt S (num_steps - s) s i)"
  using assms
proof (induction "num_steps - s" arbitrary: s)
  case 0
  then have s: "s = num_steps" by simp
  show ?case
    unfolding s
    by (auto simp: terminal_values_def terminal_spot_def nth_append less_Suc_eq_le
        simp del: upt_Suc)
next
  case (Suc k)
  then have lt: "s < num_steps" and k: "k = num_steps - Suc s" and le: "Suc s \<le> num_steps"
    by simp_all
  let ?w = "fold (american_step ps opt S) (rev [Suc s..<num_steps])
              (terminal_values ps opt S num_steps)"
  have ih: "length ?w = Suc num_steps"
    "\<And>i. i \<le> Suc s \<Longrightarrow> ?w ! i = american_lattice ps opt S (num_steps - Suc s) (Suc s) i"
    using Suc.hyps(1) [OF k le] by simp_all
  have step: "fold (american_step ps opt S) (rev [s..<num_steps])
                (terminal_values ps opt S num_steps) = american_step ps opt S s ?w"
    using lt by (rule backward_unfold)
  have bound: "Suc s < length ?w" using ih(1) lt by simp
  have suc: "num_steps - s = Suc (num_steps - Suc s)" using lt by simp
  show ?case
  proof (intro conjI allI impI)
    show "length (fold (american_step ps opt S) (rev [s..<num_steps])
                  (terminal_values ps opt S num_steps)) = Suc num_steps"
      unfolding step using american_step_nth(2) [OF bound, of 0] bound ih(1) by simp
  next
    fix i assume i: "i \<le> s"
    then have il: "i < length ?w" using bound by simp
    show "fold (american_step ps opt S) (rev [s..<num_steps])
            (terminal_values ps opt S num_steps) ! i
          = american_lattice ps opt S (num_steps - s) s i"
      unfolding step suc
      using american_step_nth(1) [OF bound il, of ps opt S] i ih(2) [of i] ih(2) [of "Suc i"]
      by (simp add: american_value_def)
  qed
qed

text \<open>
  The binomial engine: the in-place loop of \<^verbatim>\<open>price_american\<close> returns the root
  value of the lattice in which every terminal node is worth its payoff and every
  interior node the larger of its discounted expected continuation and its exercise value.
\<close>

theorem binomial_american_is_lattice:
  "price_american num_steps opt md ps = american_lattice ps opt (spot md) num_steps 0 0"
  using american_backward [of 0 num_steps ps opt "spot md"]
  by (simp add: price_american_def Let_def)

section \<open>Early exercise in the trinomial lattice\<close>

lemma trinomial_parameters_unit: "trinomial_parameters 2 md_drift_free (2 / 3) = unit_trinomial"
  by (simp add: trinomial_parameters_def md_drift_free_def unit_trinomial_def Let_def)

lemma size_t_sub_values: "size_t_sub 0 2 = - 2" "size_t_sub (Suc 0) 2 = - 1" "size_t_sub 1 2 = - 1"
  "size_t_sub 2 2 = 0" "size_t_sub 3 2 = 1" "size_t_sub 4 2 = 2"
  by (simp_all add: size_t_sub_def)

lemma low_32_bits: "(ucast (- 2 :: 64 word) :: 32 word) = - 2" "(ucast (- 1 :: 64 word) :: 32 word) = - 1"
  by (simp_all add: unsigned_minus_1_eq_mask mask_eq_exp_minus_1
      word_eq_iff_unsigned [where ?'a = int])

lemma signed_minus_two: "sint (- 2 :: 32 word) = - 2" "(signed (- 2 :: 32 word) :: real) = - 2"
  by simp_all

lemma node_ranges: "[0..<2 * 2 + 1] = [0, 1, 2, 3, 4]" "[2 - 1..<Suc (2 + 1)] = [1, 2, 3]"
  "[2 - 0..<Suc (2 + 0)] = [2]" "rev [0..<2] = [1, 0]" "[0..<5] = [0, 1, 2, 3, 4]"
  by code_simp+

lemma exp_bounds: "exp (- 1 :: real) < 1" "exp (- 2 :: real) < 1" "1 < exp (1::real)" "1 < exp (2::real)"
  "1 \<le> exp (18446744073709551615 :: real)"
  by simp_all

lemma terminal_layer:
  "trinomial_terminal unit_trinomial short_american_put 100 2
     = [100 - 100 * exp (- 2), 100 - 100 * exp (- 1), 0, 0, 0]"
  using exp_bounds
  by (simp add: trinomial_terminal_def node_ranges size_t_sub_values low_32_bits
      signed_minus_two unit_trinomial_def short_american_put_def payoff_def Option_payoff_def
      Let_def max_def)

lemma lower_continuation_pos: "0 < lower_continuation"
proof -
  have "0 < 100 - 100 * exp (- 1 :: real)" "0 < 100 - 100 * exp (- 2 :: real)" by simp_all
  then show ?thesis unfolding lower_continuation_def by (intro add_pos_pos mult_pos_pos) simp_all
qed

lemma unat_minus_one_64: "unat (- 1 :: 64 word) = 18446744073709551615"
  by (simp add: unsigned_minus_1_eq_mask mask_eq_exp_minus_1)

lemma five_nth: "[a, b, c, e, f] ! 0 = a" "[a, b, c, e, f] ! 1 = b" "[a, b, c, e, f] ! 2 = c"
  "[a, b, c, e, f] ! 3 = e" "[a, b, c, e, f] ! 4 = f"
  by (simp_all add: numeral_2_eq_2 numeral_3_eq_3 eval_nat_numeral)

lemma five_update: "[a, b, c, e, f][1 := x] = [a, x, c, e, f]" "[a, b, c, e, f][2 := x] = [a, b, x, e, f]"
  "[a, b, c, e, f][3 := x] = [a, b, c, x, f]"
  by (simp_all add: numeral_2_eq_2 numeral_3_eq_3)

lemma small_sums: "(1::nat) + 1 = 2" "(1::nat) - 1 = 0" "(2::nat) + 1 = 3" "(2::nat) - 1 = 1"
  "(3::nat) + 1 = 4" "(3::nat) - 1 = 2"
  by simp_all

lemma lower_node:
  "trinomial_node unit_trinomial short_american_put 100 2
     [100 - 100 * exp (- 2), 100 - 100 * exp (- 1), 0, 0, 0] 1
   = [100 - 100 * exp (- 2), lower_continuation, 0, 0, 0]"
  using lower_continuation_pos exp_bounds
  by (simp add: trinomial_node_def size_t_sub_values unat_minus_one_64 unit_trinomial_def short_american_put_def
      payoff_def Option_payoff_def Let_def max_def lower_continuation_def five_nth five_update small_sums)

lemma centre_node:
  "trinomial_node unit_trinomial short_american_put 100 2
     [100 - 100 * exp (- 2), lower_continuation, 0, 0, 0] 2
   = [100 - 100 * exp (- 2), lower_continuation, lower_continuation / 6, 0, 0]"
  using lower_continuation_pos
  by (simp add: trinomial_node_def size_t_sub_values unit_trinomial_def short_american_put_def
      payoff_def Option_payoff_def Let_def max_def five_nth five_update small_sums)

lemma upper_node:
  "trinomial_node unit_trinomial short_american_put 100 2
     [100 - 100 * exp (- 2), lower_continuation, lower_continuation / 6, 0, 0] 3
   = [100 - 100 * exp (- 2), lower_continuation, lower_continuation / 6, lower_continuation / 36, 0]"
  using lower_continuation_pos exp_bounds
  by (simp add: trinomial_node_def size_t_sub_values unit_trinomial_def short_american_put_def
      payoff_def Option_payoff_def Let_def max_def five_nth five_update small_sums)

lemma root_node:
  "trinomial_node unit_trinomial short_american_put 100 2
     [100 - 100 * exp (- 2), lower_continuation, lower_continuation / 6, lower_continuation / 36, 0] 2
   = [100 - 100 * exp (- 2), lower_continuation, 61 / 216 * lower_continuation,
      lower_continuation / 36, 0]"
  using lower_continuation_pos
  by (simp add: trinomial_node_def size_t_sub_values unit_trinomial_def short_american_put_def
      payoff_def Option_payoff_def Let_def max_def five_nth five_update small_sums)

lemma first_backward_step:
  "trinomial_step unit_trinomial short_american_put 100 2 1
     [100 - 100 * exp (- 2), 100 - 100 * exp (- 1), 0, 0, 0]
   = [100 - 100 * exp (- 2), lower_continuation, lower_continuation / 6, lower_continuation / 36, 0]"
  by (simp only: trinomial_step_def node_ranges fold.simps o_apply id_apply lower_node centre_node upper_node)

lemma last_backward_step:
  "trinomial_step unit_trinomial short_american_put 100 2 0
     [100 - 100 * exp (- 2), lower_continuation, lower_continuation / 6, lower_continuation / 36, 0]
   = [100 - 100 * exp (- 2), lower_continuation, 61 / 216 * lower_continuation,
      lower_continuation / 36, 0]"
  by (simp only: trinomial_step_def node_ranges fold.simps o_apply id_apply root_node)

lemma trinomial_code_price:
  "TrinomialTreeModel_price 2 short_american_put md_drift_free = 61 / 216 * lower_continuation"
proof -
  have e: "expiry short_american_put = 2 / 3" "spot md_drift_free = 100"
    by (simp_all add: short_american_put_def md_drift_free_def)
  show ?thesis
    by (simp only: TrinomialTreeModel_price_def e trinomial_parameters_unit terminal_layer
        node_ranges fold.simps o_apply id_apply
        first_backward_step last_backward_step Let_def five_nth)
qed

lemma exp_minus_one_half: "exp (- 1 :: real) \<le> 1 / 2"
proof -
  have "2 \<le> exp (1::real)" using exp_ge_add_one_self [of "1::real"] by simp
  then have "inverse (exp (1::real)) \<le> inverse 2" by (intro le_imp_inverse_le) simp_all
  then show ?thesis by (simp add: exp_minus)
qed

lemma exp_minus_two: "exp (- 2 :: real) = exp (- 1) * exp (- 1)"
  by (simp add: exp_add [symmetric])

lemma put_polynomials:
  fixes a :: real
  assumes "0 < a" and "a \<le> 1 / 2"
  shows "2 / 3 * (100 - 100 * a) + 1 / 6 * (100 - 100 * (a * a)) < 100 - 100 * a"
    and "61 / 216 * (2 / 3 * (100 - 100 * a) + 1 / 6 * (100 - 100 * (a * a)))
           < 5 / 18 * (100 - 100 * a)"
proof -
  have "0 < (1 - a) * (1 - a)" using assms by simp
  then have sq: "0 < 1 - 2 * a + a * a" by (simp add: algebra_simps)
  have "0 < (1 - a) * (55 - 61 * a)" using assms by (intro mult_pos_pos) simp_all
  then have pr: "0 < 55 - 116 * a + 61 * (a * a)" by (simp add: algebra_simps)
  have d1: "100 - 100 * a - (2 / 3 * (100 - 100 * a) + 1 / 6 * (100 - 100 * (a * a)))
              = 50 / 3 * (1 - 2 * a + a * a)"
    by (simp add: algebra_simps)
  have "0 < 50 / 3 * (1 - 2 * a + a * a)" using sq by simp
  then show "2 / 3 * (100 - 100 * a) + 1 / 6 * (100 - 100 * (a * a)) < 100 - 100 * a"
    using d1 by linarith
  have d2: "5 / 18 * (100 - 100 * a)
              - 61 / 216 * (2 / 3 * (100 - 100 * a) + 1 / 6 * (100 - 100 * (a * a)))
              = 25 / 324 * (55 - 116 * a + 61 * (a * a))"
    by (simp add: algebra_simps)
  have "0 < 25 / 324 * (55 - 116 * a + 61 * (a * a))" using pr by simp
  then show "61 / 216 * (2 / 3 * (100 - 100 * a) + 1 / 6 * (100 - 100 * (a * a)))
           < 5 / 18 * (100 - 100 * a)"
    using d2 by linarith
qed

lemma lower_continuation_below_exercise: "lower_continuation < 100 - 100 * exp (- 1)"
  unfolding lower_continuation_def exp_minus_two
  using put_polynomials(1) [of "exp (- 1)"] exp_minus_one_half by simp

lemma put_payoffs:
  "payoff short_american_put (100 * exp (- 2)) = 100 - 100 * exp (- 2)"
  "payoff short_american_put (100 * exp (- 1)) = 100 - 100 * exp (- 1)"
  "payoff short_american_put 100 = 0"
  "payoff short_american_put (100 * exp 1) = 0"
  "payoff short_american_put (100 * exp 2) = 0"
  using exp_bounds
  by (simp_all add: short_american_put_def payoff_def Option_payoff_def max_def)

lemma unit_fields: "tdf unit_trinomial = 1" "pu unit_trinomial = 1 / 6" "pm unit_trinomial = 2 / 3"
  "pd unit_trinomial = 1 / 6" "dx unit_trinomial = 1"
  by (simp_all add: unit_trinomial_def)

lemma lattice_layer0:
  "american_trinomial_lattice unit_trinomial short_american_put 100 0 (- 2) = 100 - 100 * exp (- 2)"
  "american_trinomial_lattice unit_trinomial short_american_put 100 0 (- 1) = 100 - 100 * exp (- 1)"
  "american_trinomial_lattice unit_trinomial short_american_put 100 0 0 = 0"
  "american_trinomial_lattice unit_trinomial short_american_put 100 0 1 = 0"
  "american_trinomial_lattice unit_trinomial short_american_put 100 0 2 = 0"
  by (simp_all add: unit_fields put_payoffs)

lemma lattice_layer1:
  "american_trinomial_lattice unit_trinomial short_american_put 100 (Suc 0) (- 1) = 100 - 100 * exp (- 1)"
  "american_trinomial_lattice unit_trinomial short_american_put 100 (Suc 0) 0 = (100 - 100 * exp (- 1)) / 6"
  "american_trinomial_lattice unit_trinomial short_american_put 100 (Suc 0) 1 = 0"
proof -
  have lc: "1 * (1 / 6 * 0 + 2 / 3 * (100 - 100 * exp (- 1)) + 1 / 6 * (100 - 100 * exp (- 2)))
              = lower_continuation"
    by (simp add: lower_continuation_def)
  have "american_trinomial_lattice unit_trinomial short_american_put 100 (Suc 0) (- 1)
          = max lower_continuation (100 - 100 * exp (- 1))"
    apply (subst american_trinomial_lattice.simps(2))
    apply (simp only: unit_fields)
    apply (simp add: lattice_layer0 put_payoffs lower_continuation_def del: american_trinomial_lattice.simps)
    done
  then show "american_trinomial_lattice unit_trinomial short_american_put 100 (Suc 0) (- 1)
          = 100 - 100 * exp (- 1)"
    using lower_continuation_below_exercise by (simp add: max_def)
  have "american_trinomial_lattice unit_trinomial short_american_put 100 (Suc 0) 0
          = max ((100 - 100 * exp (- 1)) / 6) 0"
    apply (subst american_trinomial_lattice.simps(2))
    apply (simp only: unit_fields)
    apply (simp add: lattice_layer0 put_payoffs del: american_trinomial_lattice.simps)
    done
  then show "american_trinomial_lattice unit_trinomial short_american_put 100 (Suc 0) 0
          = (100 - 100 * exp (- 1)) / 6"
    by (simp add: max_def)
  show "american_trinomial_lattice unit_trinomial short_american_put 100 (Suc 0) 1 = 0"
    apply (subst american_trinomial_lattice.simps(2))
    apply (simp only: unit_fields)
    apply (simp add: lattice_layer0 put_payoffs del: american_trinomial_lattice.simps)
    done
qed

lemma lattice_root:
  "american_trinomial_lattice unit_trinomial short_american_put 100 (Suc (Suc 0)) 0
     = 5 / 18 * (100 - 100 * exp (- 1))"
proof -
  have "american_trinomial_lattice unit_trinomial short_american_put 100 (Suc (Suc 0)) 0
          = max (1 * (1 / 6 * 0 + 2 / 3 * ((100 - 100 * exp (- 1)) / 6)
                      + 1 / 6 * (100 - 100 * exp (- 1)))) 0"
    apply (subst american_trinomial_lattice.simps(2))
    apply (simp only: unit_fields)
    apply (simp add: lattice_layer1 put_payoffs del: american_trinomial_lattice.simps)
    done
  moreover have "\<And>a::real. 1 * (1 / 6 * 0 + 2 / 3 * ((100 - 100 * a) / 6)
                      + 1 / 6 * (100 - 100 * a)) = 5 / 18 * (100 - 100 * a)"
    by (simp add: field_simps)
  moreover have "0 < 5 / 18 * (100 - 100 * exp (- 1 :: real))" by simp
  ultimately show ?thesis by (simp only: max_def) simp
qed

text \<open>
  Claim C1 on the trinomial engine, at two steps.  The price the engine returns for the
  American put is strictly below the value of the lattice the specification describes
  (payoff at the terminal nodes, the larger of discounted expectation and immediate
  exercise at every interior node).  One step before expiry the node below the centre is
  left at its continuation value although exercise is worth more, because the spot used
  for the exercise test comes from an unsigned difference that has wrapped; and the
  nodes swept after it read its new value where the value of the later layer is due.
\<close>

theorem trinomial_american_put_underpriced:
  "TrinomialTreeModel_price 2 short_american_put md_drift_free
     < american_trinomial_lattice (trinomial_parameters 2 md_drift_free (expiry short_american_put))
         short_american_put (spot md_drift_free) 2 0"
proof -
  have e: "expiry short_american_put = 2 / 3" "spot md_drift_free = 100"
    by (simp_all add: short_american_put_def md_drift_free_def)
  have two: "(2::nat) = Suc (Suc 0)" by simp
  have r: "american_trinomial_lattice unit_trinomial short_american_put 100 2 0
             = 5 / 18 * (100 - 100 * exp (- 1))"
    by (subst two) (rule lattice_root)
  have "61 / 216 * lower_continuation < 5 / 18 * (100 - 100 * exp (- 1))"
    unfolding lower_continuation_def exp_minus_two
    using put_polynomials(2) [of "exp (- 1)"] exp_minus_one_half by simp
  then show ?thesis by (simp only: e trinomial_parameters_unit trinomial_code_price r)
qed

end
